theory Spec2Isabelle
  imports Complex_Main "HOL-Library.AList"
begin

section \<open>Strings and numbers of the source\<close>

text \<open>
  The plan page is TypeScript. A string of the source is a sequence of UTF-16 code units;
  it is modelled as the list of those code units, each a natural number. The Korean
  literals of the page are written out unit by unit, with their code points in the
  comment beside them. Numbers of the source that hold identifiers, terms, counts and
  credits are integers here.
\<close>

type_synonym jstring = "nat list"

text \<open>\<open>String.prototype.startsWith\<close> and \<open>String.prototype.includes\<close>.\<close>

fun startsWith :: "jstring \<Rightarrow> jstring \<Rightarrow> bool" where
  "startsWith s [] = True"
| "startsWith [] (p # ps) = False"
| "startsWith (c # cs) (p # ps) = (c = p \<and> startsWith cs ps)"

fun str_includes :: "jstring \<Rightarrow> jstring \<Rightarrow> bool" where
  "str_includes [] pat = startsWith [] pat"
| "str_includes (c # cs) pat = (startsWith (c # cs) pat \<or> str_includes cs pat)"

text \<open>The literals of the source, as code units.\<close>

definition str_practicum :: jstring where      \<comment> \<open>the practicum marker, U+C2E4 U+C2B5\<close>
  "str_practicum = [49892, 49845]"

definition str_bachelor :: jstring where       \<comment> \<open>bachelor's degree, U+D559 U+C0AC\<close>
  "str_bachelor = [54617, 49324]"

definition str_highschool :: jstring where     \<comment> \<open>high-school graduate, U+ACE0 U+C878\<close>
  "str_highschool = [44256, 51320]"

definition str_dropout2 :: jstring where       \<comment> \<open>left a 2-year college: 2 U+B144 U+C81C U+C911 U+D1F4\<close>
  "str_dropout2 = [50, 45380, 51228, 51473, 53748]"

definition str_dropout3 :: jstring where       \<comment> \<open>left a 3-year college\<close>
  "str_dropout3 = [51, 45380, 51228, 51473, 53748]"

definition str_dropout4 :: jstring where       \<comment> \<open>left a 4-year university\<close>
  "str_dropout4 = [52, 45380, 51228, 51473, 53748]"

definition str_grad2 :: jstring where          \<comment> \<open>2-year graduate: 2 U+B144 U+C81C U+C878 U+C5C5\<close>
  "str_grad2 = [50, 45380, 51228, 51320, 50629]"

definition str_grad3 :: jstring where          \<comment> \<open>3-year graduate\<close>
  "str_grad3 = [51, 45380, 51228, 51320, 50629]"

definition str_grad4 :: jstring where          \<comment> \<open>4-year graduate\<close>
  "str_grad4 = [52, 45380, 51228, 51320, 50629]"

definition str_major :: jstring where          \<comment> \<open>major, U+C804 U+ACF5\<close>
  "str_major = [51204, 44277]"

definition str_liberal :: jstring where        \<comment> \<open>liberal arts, U+AD50 U+C591\<close>
  "str_liberal = [44368, 50577]"

definition str_general :: jstring where        \<comment> \<open>general, U+C77C U+BC18\<close>
  "str_general = [51068, 48152]"

definition str_stage1 :: jstring where         \<comment> \<open>stage 1: 1 U+B2E8 U+ACC4\<close>
  "str_stage1 = [49, 45800, 44228]"

definition str_blue :: jstring where           \<comment> \<open>\<open>#3182F6\<close>\<close>
  "str_blue = [35, 51, 49, 56, 50, 70, 54]"

definition str_green :: jstring where          \<comment> \<open>\<open>#059669\<close>\<close>
  "str_green = [35, 48, 53, 57, 54, 54, 57]"

definition str_amber :: jstring where          \<comment> \<open>\<open>#D97706\<close>\<close>
  "str_amber = [35, 68, 57, 55, 55, 48, 54]"

text \<open>
  White space as \<open>trim\<close>, \<open>parseInt\<close> and the class \<open>\s\<close> of a regular expression
  see it, and the decimal digits of the class \<open>\d\<close>.
\<close>

definition isWhiteSpace :: "nat \<Rightarrow> bool" where
  "isWhiteSpace c =
    (c = 9 \<or> c = 10 \<or> c = 11 \<or> c = 12 \<or> c = 13 \<or> c = 32 \<or> c = 160 \<or> c = 5760 \<or>
     (8192 \<le> c \<and> c \<le> 8202) \<or> c = 8232 \<or> c = 8233 \<or> c = 8239 \<or> c = 8287 \<or>
     c = 12288 \<or> c = 65279)"

definition isDigit :: "nat \<Rightarrow> bool" where
  "isDigit c = (48 \<le> c \<and> c \<le> 57)"

definition trim :: "jstring \<Rightarrow> jstring" where
  "trim s = rev (dropWhile isWhiteSpace (rev (dropWhile isWhiteSpace s)))"

text \<open>The value of a run of decimal digits, most significant digit first.\<close>

definition decimalValue :: "jstring \<Rightarrow> nat" where
  "decimalValue ds = foldl (\<lambda>a c. 10 * a + (c - 48)) 0 ds"

text \<open>
  \<open>parseInt\<close> with no radix: leading white space is skipped, a sign is read, a prefix
  \<open>0x\<close> or \<open>0X\<close> switches to base sixteen, and the longest run of digits is the value.
  No digit at all is \<open>NaN\<close>, here \<open>None\<close>.
\<close>

definition hexDigit :: "nat \<Rightarrow> nat option" where
  "hexDigit c =
    (if 48 \<le> c \<and> c \<le> 57 then Some (c - 48)
     else if 97 \<le> c \<and> c \<le> 102 then Some (c - 87)
     else if 65 \<le> c \<and> c \<le> 70 then Some (c - 55)
     else None)"

definition hexValue :: "jstring \<Rightarrow> nat" where
  "hexValue ds = foldl (\<lambda>a c. 16 * a + (case hexDigit c of None \<Rightarrow> 0 | Some v \<Rightarrow> v)) 0 ds"

definition parseMagnitude :: "jstring \<Rightarrow> nat option" where
  "parseMagnitude s =
    (if startsWith s [48, 120] \<or> startsWith s [48, 88] then
       (let ds = takeWhile (\<lambda>c. hexDigit c \<noteq> None) (drop 2 s) in
        if ds = [] then None else Some (hexValue ds))
     else
       (let ds = takeWhile isDigit s in
        if ds = [] then None else Some (decimalValue ds)))"

definition parseInt :: "jstring \<Rightarrow> int option" where
  "parseInt s =
    (case dropWhile isWhiteSpace s of
       [] \<Rightarrow> None
     | c # r \<Rightarrow>
         if c = 45 then map_option (\<lambda>n. - int n) (parseMagnitude r)
         else if c = 43 then map_option int (parseMagnitude r)
         else map_option int (parseMagnitude (c # r)))"

text \<open>
  A number inside a template literal: the decimal digits of an integer, with a minus
  sign in front of a negative one, and \<open>NaN\<close> for the result of a failed \<open>parseInt\<close>.
\<close>

fun digitsOf :: "nat \<Rightarrow> jstring" where
  "digitsOf n = (if n < 10 then [48 + n] else digitsOf (n div 10) @ [48 + n mod 10])"

declare digitsOf.simps [simp del]

definition numToString :: "int \<Rightarrow> jstring" where
  "numToString i = (if i < 0 then 45 # digitsOf (nat (- i)) else digitsOf (nat i))"

definition numberToString :: "int option \<Rightarrow> jstring" where
  "numberToString v = (case v of None \<Rightarrow> [78, 97, 78] | Some i \<Rightarrow> numToString i)"


section \<open>Requirement profiles\<close>

text \<open>\<open>SubjectCategory\<close> is the union of the three literals major, liberal and general.\<close>

datatype SubjectCategory = Major | Liberal | General

record PlanTarget =
  label :: jstring
  categories :: "SubjectCategory list"
  target :: int
  color :: jstring

record PracticeRequirement =
  required :: int
  elective :: int

text \<open>\<open>subjectTarget: number | null\<close> and the optional \<open>practice\<close> are options.\<close>

record PlanConfig =
  isHighSchool :: bool
  totalTarget :: int
  subjectTarget :: "int option"
  targets :: "PlanTarget list"
  practice :: "PracticeRequirement option"

definition JUNGTAE_GROUP :: "jstring list" where
  "JUNGTAE_GROUP = [str_highschool, str_dropout2, str_dropout3, str_dropout4]"

definition TWOTHREE_GRAD :: "jstring list" where
  "TWOTHREE_GRAD = [str_grad2, str_grad3]"

definition GRAD_ALL :: "jstring list" where
  "GRAD_ALL = [str_grad2, str_grad3, str_grad4]"

text \<open>
  The three arguments are \<open>string | null\<close> (\<open>undefined\<close> behaves as \<open>null\<close> in every
  test the function makes): \<open>courseName?.includes(marker)\<close> is falsy on \<open>null\<close>,
  \<open>educationLevel ?? ''\<close> replaces \<open>null\<close> by the empty string, and the strict
  comparison of \<open>desiredDegree\<close> with the bachelor literal is false on \<open>null\<close>.
\<close>

definition getPlanConfig ::
  "jstring option \<Rightarrow> jstring option \<Rightarrow> jstring option \<Rightarrow> PlanConfig" where
  "getPlanConfig educationLevel courseName desiredDegree =
    (if (case courseName of None \<Rightarrow> False | Some c \<Rightarrow> str_includes c str_practicum) then
       \<lparr> isHighSchool = False, totalTarget = 6, subjectTarget = Some 6,
         targets = [\<lparr> label = str_major, categories = [Major], target = 6, color = str_blue \<rparr>],
         practice = Some \<lparr> required = 4, elective = 2 \<rparr> \<rparr>
     else
       let level = (case educationLevel of None \<Rightarrow> [] | Some l \<Rightarrow> l) in
       if level \<in> set JUNGTAE_GROUP \<and> desiredDegree = Some str_bachelor then
         \<lparr> isHighSchool = True, totalTarget = 140, subjectTarget = None,
           targets = [\<lparr> label = str_major, categories = [Major], target = 60, color = str_blue \<rparr>,
                      \<lparr> label = str_liberal, categories = [Liberal], target = 30, color = str_green \<rparr>,
                      \<lparr> label = str_general, categories = [General], target = 50, color = str_amber \<rparr>],
           practice = None \<rparr>
       else if level \<in> set JUNGTAE_GROUP then
         \<lparr> isHighSchool = True, totalTarget = 80, subjectTarget = None,
           targets = [\<lparr> label = str_major, categories = [Major], target = 45, color = str_blue \<rparr>,
                      \<lparr> label = str_liberal, categories = [Liberal], target = 15, color = str_green \<rparr>,
                      \<lparr> label = str_general, categories = [General], target = 20, color = str_amber \<rparr>],
           practice = None \<rparr>
       else if level \<in> set TWOTHREE_GRAD \<and> desiredDegree = Some str_bachelor then
         \<lparr> isHighSchool = True, totalTarget = 140, subjectTarget = None,
           targets = [\<lparr> label = str_major, categories = [Major], target = 60, color = str_blue \<rparr>,
                      \<lparr> label = str_liberal, categories = [Liberal], target = 30, color = str_green \<rparr>,
                      \<lparr> label = str_general, categories = [General], target = 50, color = str_amber \<rparr>],
           practice = None \<rparr>
       else if level \<in> set GRAD_ALL then
         \<lparr> isHighSchool = False, totalTarget = 51, subjectTarget = Some 8,
           targets = [\<lparr> label = str_major, categories = [Major], target = 51, color = str_blue \<rparr>],
           practice = None \<rparr>
       else
         \<lparr> isHighSchool = False, totalTarget = 51, subjectTarget = Some 8,
           targets = [\<lparr> label = str_major, categories = [Major], target = 51, color = str_blue \<rparr>],
           practice = None \<rparr>)"

text \<open>
  The views of a profile the specification speaks of: whether the course name carries
  the practicum marker, the education level after the \<open>null\<close> default, the category
  targets as a table from label to credits, and the sum of those targets.
\<close>

definition isPracticum :: "jstring option \<Rightarrow> bool" where
  "isPracticum courseName =
    (case courseName of None \<Rightarrow> False | Some c \<Rightarrow> str_includes c str_practicum)"

definition levelOf :: "jstring option \<Rightarrow> jstring" where
  "levelOf educationLevel = (case educationLevel of None \<Rightarrow> [] | Some l \<Rightarrow> l)"

definition categoryTargets :: "PlanConfig \<Rightarrow> (jstring \<times> int) list" where
  "categoryTargets cfg = map (\<lambda>t. (label t, target t)) (targets cfg)"

definition targetSum :: "PlanConfig \<Rightarrow> int" where
  "targetSum cfg = sum_list (map target (targets cfg))"


section \<open>The semester plan\<close>

subsection \<open>Data\<close>

text \<open>
  The theory or practice kind of a subject and its required or elective tag are unions
  of two literals each; the tag may be absent.
\<close>

datatype SubjectKind = Theory | Practice

datatype SubjectTag = Required | Elective

record Subject =
  subj_id :: int
  category :: SubjectCategory
  subj_name :: jstring
  credits :: int
  subj_kind :: SubjectKind
  subject_type :: "SubjectTag option"
  student_id :: "jstring option"

record Semester =
  sem_id :: int
  sem_year :: jstring
  sem_term :: int
  class_number :: int
  sem_label :: jstring
  sem_months :: jstring

record SemesterDates =
  date_start :: jstring
  date_end :: jstring

text \<open>
  \<open>semesterSubjects\<close> and \<open>semesterDates\<close> are objects used as dictionaries from a
  semester id. An object is modelled as an association list; the order of its entries
  plays no part in the page, which only looks keys up, replaces or deletes them, and
  folds sums and membership tests over the values.
\<close>

type_synonym assignments = "(int \<times> int list) list"

record plan_state =
  semesters :: "Semester list"
  semesterSubjects :: assignments
  semesterDates :: "(int \<times> SemesterDates) list"
  selectedSemester :: int
  subjects :: "Subject list"

definition INITIAL_SEMESTERS :: "Semester list" where
  "INITIAL_SEMESTERS =
    [\<lparr> sem_id = 0, sem_year = [50, 48, 50, 53], sem_term = 1, class_number = 1,
       sem_label = [], sem_months = [] \<rparr>,
     \<lparr> sem_id = 1, sem_year = [50, 48, 50, 53], sem_term = 2, class_number = 1,
       sem_label = [], sem_months = [] \<rparr>]"

definition MAX_PER_SEMESTER :: nat where
  "MAX_PER_SEMESTER = 8"

definition MAX_PER_YEAR :: nat where
  "MAX_PER_YEAR = 14"

text \<open>\<open>semesterSubjects[k] ?? []\<close>\<close>

definition subjectsOf :: "assignments \<Rightarrow> int \<Rightarrow> int list" where
  "subjectsOf m k = (case map_of m k of None \<Rightarrow> [] | Some v \<Rightarrow> v)"

text \<open>\<open>Object.values(semesterSubjects).flat()\<close>\<close>

definition assignedIds :: "plan_state \<Rightarrow> int list" where
  "assignedIds st = concat (map snd (semesterSubjects st))"

text \<open>The template literal that joins year and term with a hyphen: the group key.\<close>

definition groupKeyOf :: "Semester \<Rightarrow> jstring" where
  "groupKeyOf s = sem_year s @ [45] @ numToString (sem_term s)"

text \<open>The messages shown by \<open>alert\<close>, by what they report.\<close>

datatype alert =
    TermLimitAlert "int option" nat
  | YearLimitAlert "jstring option" nat
  | FailureAlert jstring


subsection \<open>Assigning and removing subjects\<close>

text \<open>
  The sum that both counters compute with \<open>reduce\<close>: the lengths of the assignment
  lists of some semesters, added up.
\<close>

definition countSubjects :: "assignments \<Rightarrow> Semester list \<Rightarrow> nat" where
  "countSubjects m sems = sum_list (map (\<lambda>s. length (subjectsOf m (sem_id s))) sems)"

definition getYearSubjectCount :: "plan_state \<Rightarrow> jstring \<Rightarrow> nat" where
  "getYearSubjectCount st y =
    countSubjects (semesterSubjects st) (filter (\<lambda>s. sem_year s = y) (semesters st))"

definition isSubjectUsed :: "plan_state \<Rightarrow> int \<Rightarrow> bool" where
  "isSubjectUsed st subjectId = (subjectId \<in> set (assignedIds st))"

definition handleSubjectClick :: "plan_state \<Rightarrow> int \<Rightarrow> plan_state \<times> alert option" where
  "handleSubjectClick st subjectId =
    (if isSubjectUsed st subjectId then (st, None)
     else
       let targetSemId = selectedSemester st;
           current = subjectsOf (semesterSubjects st) targetSemId;
           curSem = find (\<lambda>s. sem_id s = targetSemId) (semesters st);
           groupKey = (case curSem of None \<Rightarrow> [] | Some c \<Rightarrow> groupKeyOf c);
           groupSems = filter (\<lambda>s. groupKeyOf s = groupKey) (semesters st);
           groupCount = countSubjects (semesterSubjects st) groupSems;
           yearCount = (case curSem of None \<Rightarrow> 0 | Some c \<Rightarrow> getYearSubjectCount st (sem_year c))
       in
         if groupCount \<ge> MAX_PER_SEMESTER then
           (st, Some (TermLimitAlert (map_option sem_term curSem) MAX_PER_SEMESTER))
         else if yearCount \<ge> MAX_PER_YEAR then
           (st, Some (YearLimitAlert (map_option sem_year curSem) MAX_PER_YEAR))
         else
           (st\<lparr> semesterSubjects :=
                  AList.update targetSemId (current @ [subjectId]) (semesterSubjects st) \<rparr>,
            None))"

text \<open>
  \<open>handleRemoveAssigned\<close> ignores the semester id it is given. It walks the cohorts of
  the selected group, in order, and filters the subject out of the first list holding it.
\<close>

fun removeFromFirst :: "Semester list \<Rightarrow> int \<Rightarrow> assignments \<Rightarrow> assignments" where
  "removeFromFirst [] subjectId next = next"
| "removeFromFirst (sem # rest) subjectId next =
    (if subjectId \<in> set (subjectsOf next (sem_id sem)) then
       AList.update (sem_id sem)
         (filter (\<lambda>i. i \<noteq> subjectId) (subjectsOf next (sem_id sem))) next
     else removeFromFirst rest subjectId next)"

definition handleRemoveAssigned :: "plan_state \<Rightarrow> int \<Rightarrow> plan_state" where
  "handleRemoveAssigned st subjectId =
    (let curSem = (case find (\<lambda>s. sem_id s = selectedSemester st) (semesters st) of
                     Some c \<Rightarrow> Some c
                   | None \<Rightarrow> (case semesters st of [] \<Rightarrow> None | s # _ \<Rightarrow> Some s));
         groupKey = (case curSem of None \<Rightarrow> [] | Some c \<Rightarrow> groupKeyOf c);
         groupSems = filter (\<lambda>s. groupKeyOf s = groupKey) (semesters st)
     in st\<lparr> semesterSubjects := removeFromFirst groupSems subjectId (semesterSubjects st) \<rparr>)"


subsection \<open>Dates and semesters\<close>

datatype date_field = StartField | EndField

definition handleDateChange :: "plan_state \<Rightarrow> int \<Rightarrow> date_field \<Rightarrow> jstring \<Rightarrow> plan_state" where
  "handleDateChange st semesterId field v =
    (let old = (case map_of (semesterDates st) semesterId of
                  None \<Rightarrow> \<lparr> date_start = [], date_end = [] \<rparr>
                | Some d \<Rightarrow> d);
         new = (case field of StartField \<Rightarrow> old\<lparr> date_start := v \<rparr>
                            | EndField \<Rightarrow> old\<lparr> date_end := v \<rparr>)
     in st\<lparr> semesterDates := AList.update semesterId new (semesterDates st) \<rparr>)"

text \<open>\<open>handleUpdateSemester\<close>, once for each of the two fields it may set.\<close>

definition handleUpdateSemesterYear :: "plan_state \<Rightarrow> int \<Rightarrow> jstring \<Rightarrow> plan_state" where
  "handleUpdateSemesterYear st semId v =
    st\<lparr> semesters := map (\<lambda>s. if sem_id s = semId then s\<lparr> sem_year := v \<rparr> else s) (semesters st) \<rparr>"

definition handleUpdateSemesterTerm :: "plan_state \<Rightarrow> int \<Rightarrow> int \<Rightarrow> plan_state" where
  "handleUpdateSemesterTerm st semId v =
    st\<lparr> semesters := map (\<lambda>s. if sem_id s = semId then s\<lparr> sem_term := v \<rparr> else s) (semesters st) \<rparr>"

text \<open>
  The default dates of a term: the first term runs from 15 November of the year before
  to 5 May, the second from 15 May to 5 November.
\<close>

definition getDefaultDates :: "jstring \<Rightarrow> int \<Rightarrow> SemesterDates" where
  "getDefaultDates y t =
    (let n = parseInt y in
     if t = 1 then
       \<lparr> date_start = numberToString (map_option (\<lambda>i. i - 1) n) @ [45, 49, 49, 45, 49, 53],
         date_end = numberToString n @ [45, 48, 53, 45, 48, 53] \<rparr>
     else
       \<lparr> date_start = numberToString n @ [45, 48, 53, 45, 49, 53],
         date_end = numberToString n @ [45, 49, 49, 45, 48, 53] \<rparr>)"

text \<open>\<open>(semesters[semesters.length - 1]?.id ?? -1) + 1\<close>\<close>

definition nextSemesterId :: "Semester list \<Rightarrow> int" where
  "nextSemesterId sems = (if sems = [] then - 1 else sem_id (last sems)) + 1"

text \<open>\<open>handleConfirmAddSemester\<close>; the year and term are those of the popup's form.\<close>

definition handleConfirmAddSemester :: "plan_state \<Rightarrow> jstring \<Rightarrow> int \<Rightarrow> plan_state" where
  "handleConfirmAddSemester st formYear formTerm =
    (let newId = nextSemesterId (semesters st);
         sameGroup = filter (\<lambda>s. sem_year s = formYear \<and> sem_term s = formTerm) (semesters st);
         classNumber = int (length sameGroup) + 1
     in st\<lparr> semesters := semesters st @
                 [\<lparr> sem_id = newId, sem_year = formYear, sem_term = formTerm,
                    class_number = classNumber, sem_label = [], sem_months = [] \<rparr>],
             semesterDates := AList.update newId (getDefaultDates formYear formTerm) (semesterDates st),
             selectedSemester := newId \<rparr>)"

text \<open>
  \<open>handleAddKisu\<close> adds a cohort to the group of the selected semester, or of the first
  semester when the selection matches none. With no semester at all the handler reads
  a field of \<open>undefined\<close>: the \<open>TypeError\<close> is the result \<open>None\<close>.
\<close>

definition handleAddKisu :: "plan_state \<Rightarrow> plan_state option" where
  "handleAddKisu st =
    (let curSem = (case find (\<lambda>s. sem_id s = selectedSemester st) (semesters st) of
                     Some c \<Rightarrow> Some c
                   | None \<Rightarrow> (case semesters st of [] \<Rightarrow> None | s # _ \<Rightarrow> Some s))
     in case curSem of
          None \<Rightarrow> None
        | Some c \<Rightarrow>
            let newId = nextSemesterId (semesters st);
                sameGroup = filter (\<lambda>s. sem_year s = sem_year c \<and> sem_term s = sem_term c)
                                   (semesters st);
                classNumber = int (length sameGroup) + 1
            in Some (st\<lparr> semesters := semesters st @
                          [\<lparr> sem_id = newId, sem_year = sem_year c, sem_term = sem_term c,
                             class_number = classNumber, sem_label = [], sem_months = [] \<rparr>],
                        semesterDates :=
                          AList.update newId (getDefaultDates (sem_year c) (sem_term c))
                            (semesterDates st) \<rparr>))"

text \<open>\<open>remaining[remaining.length - 1]?.id ?? 0\<close>\<close>

definition lastIdOr0 :: "Semester list \<Rightarrow> int" where
  "lastIdOr0 remaining = (if remaining = [] then 0 else sem_id (last remaining))"

text \<open>
  \<open>handleDeleteSemester\<close> is a closure of the render that created it: it reads
  \<open>semesters\<close> and \<open>selectedSemester\<close> of that render. It replaces the semester list
  by a value computed from them (\<open>setSemesters(remaining)\<close>), it sets the selection by
  a value computed from them, and it deletes the key from the two dictionaries by
  functions of their latest value. So a call is the list of updates it queues, computed
  from the rendered state; the event then applies the queued updates in order.
\<close>

datatype state_update =
    SetSemesters "Semester list"
  | DropSubjectsKey int
  | DropDatesKey int
  | SetSelectedSemester int

fun applyUpdate :: "plan_state \<Rightarrow> state_update \<Rightarrow> plan_state" where
  "applyUpdate st (SetSemesters v) = st\<lparr> semesters := v \<rparr>"
| "applyUpdate st (DropSubjectsKey k) =
    st\<lparr> semesterSubjects := AList.delete k (semesterSubjects st) \<rparr>"
| "applyUpdate st (DropDatesKey k) =
    st\<lparr> semesterDates := AList.delete k (semesterDates st) \<rparr>"
| "applyUpdate st (SetSelectedSemester k) = st\<lparr> selectedSemester := k \<rparr>"

definition deleteSemesterUpdates :: "plan_state \<Rightarrow> int \<Rightarrow> state_update list" where
  "deleteSemesterUpdates rendered semId =
    (if length (semesters rendered) \<le> 1 then []
     else
       let remaining = filter (\<lambda>s. sem_id s \<noteq> semId) (semesters rendered) in
       [SetSemesters remaining, DropSubjectsKey semId, DropDatesKey semId] @
       (if selectedSemester rendered = semId then
          [SetSelectedSemester
            (case find (\<lambda>s. sem_id s = semId) (semesters rendered) of
               Some deletedSem \<Rightarrow>
                 (let remainingGroup =
                        filter (\<lambda>s. groupKeyOf s = groupKeyOf deletedSem) remaining
                  in case remainingGroup of
                       g # _ \<Rightarrow> sem_id g
                     | [] \<Rightarrow> lastIdOr0 remaining)
             | None \<Rightarrow> lastIdOr0 remaining)]
        else []))"

text \<open>
  The delete button of a cohort calls the handler once: the event applies the updates
  of that one call to the rendered state.
\<close>

definition handleDeleteSemester :: "plan_state \<Rightarrow> int \<Rightarrow> plan_state" where
  "handleDeleteSemester st semId = foldl applyUpdate st (deleteSemesterUpdates st semId)"

text \<open>
  The delete button of a group tab calls the handler once for every cohort of the group,
  \<open>groupSems.forEach(s => handleDeleteSemester(s.id))\<close>, in one event: every call is
  the closure of the same render. The tab exists for a group that has a semester, and
  its button is rendered when the plan has more semesters than the group; without the
  button nothing happens.
\<close>

definition handleDeleteGroup :: "plan_state \<Rightarrow> jstring \<Rightarrow> plan_state" where
  "handleDeleteGroup st groupKey =
    (let groupSems = filter (\<lambda>s. groupKeyOf s = groupKey) (semesters st) in
     if groupSems \<noteq> [] \<and> length (semesters st) > length groupSems then
       foldl applyUpdate st (concat (map (\<lambda>s. deleteSemesterUpdates st (sem_id s)) groupSems))
     else st)"


subsection \<open>Deleting a subject\<close>

text \<open>
  \<open>handleDeleteSubject\<close> first deletes the row in the store. The store's answer is an
  argument: \<open>Some msg\<close> is an error with its message, \<open>None\<close> is success. Only after a
  success does the handler touch the state.
\<close>

definition handleDeleteSubject ::
  "plan_state \<Rightarrow> int \<Rightarrow> jstring option \<Rightarrow> plan_state \<times> alert option" where
  "handleDeleteSubject st subjectId storeError =
    (case storeError of
       Some msg \<Rightarrow> (st, Some (FailureAlert msg))
     | None \<Rightarrow>
         (st\<lparr> subjects := filter (\<lambda>s. subj_id s \<noteq> subjectId) (subjects st),
              semesterSubjects :=
                map (\<lambda>(k, v). (k, filter (\<lambda>sid. sid \<noteq> subjectId) v)) (semesterSubjects st) \<rparr>,
          None))"


subsection \<open>Sequences of operations\<close>

text \<open>
  The operations an administrator can perform on the plan, each with the arguments the
  handler takes from the event or from the form, and the state after each of them.
\<close>

datatype plan_op =
    SelectSemester int
  | SubjectClick int
  | RemoveAssigned int
  | DateChange int date_field jstring
  | UpdateYear int jstring
  | UpdateTerm int int
  | ConfirmAddSemester jstring int
  | AddKisu
  | DeleteSemester int
  | DeleteGroup jstring
  | DeleteSubject int "jstring option"

fun step :: "plan_op \<Rightarrow> plan_state \<Rightarrow> plan_state option" where
  "step (SelectSemester k) st = Some (st\<lparr> selectedSemester := k \<rparr>)"
| "step (SubjectClick subjectId) st = Some (fst (handleSubjectClick st subjectId))"
| "step (RemoveAssigned subjectId) st = Some (handleRemoveAssigned st subjectId)"
| "step (DateChange k f v) st = Some (handleDateChange st k f v)"
| "step (UpdateYear k v) st = Some (handleUpdateSemesterYear st k v)"
| "step (UpdateTerm k v) st = Some (handleUpdateSemesterTerm st k v)"
| "step (ConfirmAddSemester y t) st = Some (handleConfirmAddSemester st y t)"
| "step AddKisu st = handleAddKisu st"
| "step (DeleteSemester k) st = Some (handleDeleteSemester st k)"
| "step (DeleteGroup key) st = Some (handleDeleteGroup st key)"
| "step (DeleteSubject subjectId err) st = Some (fst (handleDeleteSubject st subjectId err))"

text \<open>
  The states a sequence of operations passes through, the first one included. A handler
  that throws ends the sequence.
\<close>

fun run :: "plan_op list \<Rightarrow> plan_state \<Rightarrow> plan_state list" where
  "run [] st = [st]"
| "run (a # ops) st = st # (case step a st of None \<Rightarrow> [] | Some st' \<Rightarrow> run ops st')"

text \<open>The operations that assign subjects: choosing a cohort and clicking a subject.\<close>

fun isAssignOp :: "plan_op \<Rightarrow> bool" where
  "isAssignOp (SelectSemester k) = True"
| "isAssignOp (SubjectClick subjectId) = True"
| "isAssignOp _ = False"


subsection \<open>The properties of a plan the specification names\<close>

text \<open>
  The number of subjects assigned in the half-year group of a year and term, summed over
  its cohorts; the capacity bounds of a state, at every group and year that has a
  semester (a group or year with no semester holds nothing).
\<close>

definition halfYearCount :: "plan_state \<Rightarrow> jstring \<Rightarrow> int \<Rightarrow> nat" where
  "halfYearCount st y t =
    countSubjects (semesterSubjects st)
      (filter (\<lambda>s. sem_year s = y \<and> sem_term s = t) (semesters st))"

definition withinCaps :: "plan_state \<Rightarrow> bool" where
  "withinCaps st =
    list_all (\<lambda>s. halfYearCount st (sem_year s) (sem_term s) \<le> MAX_PER_SEMESTER \<and>
                   getYearSubjectCount st (sem_year s) \<le> MAX_PER_YEAR) (semesters st)"

text \<open>Semester ids identify semesters: no two semesters of the plan share one.\<close>

definition distinctSemesterIds :: "plan_state \<Rightarrow> bool" where
  "distinctSemesterIds st = distinct (map sem_id (semesters st))"

text \<open>
  The page numbers a new semester one above the last, and loading numbers the cohorts
  it appends above the largest id: along the list the ids grow.
\<close>

definition increasingIds :: "Semester list \<Rightarrow> bool" where
  "increasingIds sems = sorted_wrt (\<lambda>a b. a < b) (map sem_id sems)"

text \<open>
  The number of assignment lists that hold a subject id, and global uniqueness: the
  dictionary has one entry for a key, as an object has, and every assigned subject id
  is held by at most one list.
\<close>

definition holders :: "assignments \<Rightarrow> int \<Rightarrow> nat" where
  "holders m subjectId = length (filter (\<lambda>e. subjectId \<in> set (snd e)) m)"

definition uniqueAssignment :: "plan_state \<Rightarrow> bool" where
  "uniqueAssignment st =
    (distinct (map fst (semesterSubjects st)) \<and>
     list_all (\<lambda>subjectId. holders (semesterSubjects st) subjectId \<le> 1) (assignedIds st))"


section \<open>Credit sources and their aggregation\<close>

record PrevSubject =
  prev_id :: jstring
  prev_student_id :: jstring
  prev_category :: SubjectCategory
  prev_name :: jstring
  prev_credits :: int

record CreditCert =
  cert_id :: jstring
  cert_student_id :: jstring
  cert_name :: jstring
  cert_credits :: int
  acquired_date :: "jstring option"

record DokaksaEntry =
  dok_id :: jstring
  dok_student_id :: jstring
  dok_stage :: jstring
  dok_subject_name :: jstring
  dok_credits :: int
  credit_type :: SubjectCategory

text \<open>
  \<open>creditsByCategory\<close> builds an object from category to credits. A category that no
  source mentions has no entry. \<open>bump\<close> is the statement
  \<open>map[c] = (map[c] ?? 0) + n\<close>.
\<close>

type_synonym credit_map = "SubjectCategory \<Rightarrow> int option"

definition bump :: "credit_map \<Rightarrow> SubjectCategory \<Rightarrow> int \<Rightarrow> credit_map" where
  "bump m c n = m(c \<mapsto> (case m c of None \<Rightarrow> 0 | Some v \<Rightarrow> v) + n)"

definition creditsByCategory ::
  "int list \<Rightarrow> Subject list \<Rightarrow> PrevSubject list \<Rightarrow> DokaksaEntry list \<Rightarrow> credit_map" where
  "creditsByCategory assigned subjs prevSubjects dokaksaList =
    (let m1 = foldl (\<lambda>m sid. case find (\<lambda>s. subj_id s = sid) subjs of
                                None \<Rightarrow> m
                              | Some s \<Rightarrow> bump m (category s) (credits s))
                    Map.empty assigned;
         m2 = foldl (\<lambda>m s. bump m (prev_category s) (prev_credits s)) m1 prevSubjects;
         m3 = foldl (\<lambda>m d. bump m (credit_type d) (dok_credits d)) m2 dokaksaList
     in m3)"

definition certCredits :: "CreditCert list \<Rightarrow> int" where
  "certCredits creditCerts = foldl (\<lambda>s c. s + cert_credits c) 0 creditCerts"

definition dokaksaCredits :: "DokaksaEntry list \<Rightarrow> int" where
  "dokaksaCredits dokaksaList = foldl (\<lambda>s d. s + dok_credits d) 0 dokaksaList"

text \<open>\<open>creditsByCategory[cat] ?? 0\<close>, and \<open>Object.values\<close> of the object.\<close>

definition creditsIn :: "credit_map \<Rightarrow> SubjectCategory \<Rightarrow> int" where
  "creditsIn m c = (case m c of None \<Rightarrow> 0 | Some v \<Rightarrow> v)"

definition objectValues :: "credit_map \<Rightarrow> int list" where
  "objectValues m = List.map_filter m [Major, Liberal, General]"

definition totalCredits ::
  "int list \<Rightarrow> Subject list \<Rightarrow> PrevSubject list \<Rightarrow> DokaksaEntry list \<Rightarrow> CreditCert list \<Rightarrow> int" where
  "totalCredits assigned subjs prevSubjects dokaksaList creditCerts =
    foldl (\<lambda>a b. a + b) 0 (objectValues (creditsByCategory assigned subjs prevSubjects dokaksaList))
      + certCredits creditCerts"

text \<open>
  \<open>Math.round\<close> rounds to the nearest integer, a half upwards. The quotient is taken in
  exact arithmetic.
\<close>

definition mathRound :: "real \<Rightarrow> int" where
  "mathRound x = \<lfloor>x + 1 / 2\<rfloor>"

definition progress :: "int \<Rightarrow> int \<Rightarrow> int" where
  "progress earned totalTgt = min (mathRound (real_of_int earned / real_of_int totalTgt * 100)) 100"

text \<open>
  The credits the assigned subjects bring to a category: each assigned id that the
  subject list knows counts with its credits in the category of its subject.
\<close>

definition assignedCredits :: "int list \<Rightarrow> Subject list \<Rightarrow> SubjectCategory \<Rightarrow> int" where
  "assignedCredits assigned subjs c =
    sum_list (map (\<lambda>sid. case find (\<lambda>s. subj_id s = sid) subjs of
                            None \<Rightarrow> 0
                          | Some s \<Rightarrow> if category s = c then credits s else 0) assigned)"

definition assignedTotal :: "int list \<Rightarrow> Subject list \<Rightarrow> int" where
  "assignedTotal assigned subjs =
    sum_list (map (\<lambda>sid. case find (\<lambda>s. subj_id s = sid) subjs of
                            None \<Rightarrow> 0
                          | Some s \<Rightarrow> credits s) assigned)"

definition prevCredits :: "PrevSubject list \<Rightarrow> SubjectCategory \<Rightarrow> int" where
  "prevCredits prevSubjects c =
    sum_list (map prev_credits (filter (\<lambda>s. prev_category s = c) prevSubjects))"

definition dokaksaCreditsIn :: "DokaksaEntry list \<Rightarrow> SubjectCategory \<Rightarrow> int" where
  "dokaksaCreditsIn dokaksaList c =
    sum_list (map dok_credits (filter (\<lambda>d. credit_type d = c) dokaksaList))"


section \<open>Inserting self-study entries\<close>

record DokaksaPreset =
  preset_stage :: jstring
  preset_category :: jstring
  preset_name :: jstring
  preset_credits :: int
  preset_subject_type :: SubjectTag
  sort_order :: int

record DokaksaForm =
  form_stage :: jstring
  form_subject_name :: jstring
  form_credits :: int

text \<open>
  The row a handler sends to the store. A field the handler leaves out of the object
  literal is \<open>None\<close>; the store then fills the column by its own default.
\<close>

record DokaksaRow =
  row_student_id :: jstring
  row_stage :: jstring
  row_subject_name :: jstring
  row_credits :: int
  row_credit_type :: "SubjectCategory option"

datatype dokaksa_request = DeleteRow jstring | InsertRow DokaksaRow

text \<open>
  \<open>handleToggleDokaksaPreset\<close>: an entry of the form's stage with the preset's name is
  deleted; otherwise a row is inserted, with the credit type computed on the spot. The
  student's major is \<open>None\<close> when the student or the field is \<open>null\<close>; an empty string
  is falsy as well.
\<close>

definition handleToggleDokaksaPreset ::
  "DokaksaEntry list \<Rightarrow> DokaksaForm \<Rightarrow> jstring option \<Rightarrow> jstring \<Rightarrow> DokaksaPreset \<Rightarrow> dokaksa_request" where
  "handleToggleDokaksaPreset dokaksaList dokaksaForm major studentId preset =
    (case find (\<lambda>d. dok_stage d = form_stage dokaksaForm \<and> dok_subject_name d = preset_name preset)
               dokaksaList of
       Some existing \<Rightarrow> DeleteRow (dok_id existing)
     | None \<Rightarrow>
         let ct = (if form_stage dokaksaForm = str_stage1 then Liberal
                   else if (case major of None \<Rightarrow> False
                                        | Some mj \<Rightarrow> mj \<noteq> [] \<and> preset_category preset = mj)
                        then Major
                        else General)
         in InsertRow \<lparr> row_student_id = studentId, row_stage = form_stage dokaksaForm,
                        row_subject_name = preset_name preset, row_credits = preset_credits preset,
                        row_credit_type = Some ct \<rparr>)"

text \<open>
  \<open>handleAddDokaksa\<close>, the manual entry: nothing happens when the trimmed name is
  empty; otherwise the row of the form is inserted.
\<close>

definition handleAddDokaksa :: "DokaksaForm \<Rightarrow> jstring \<Rightarrow> dokaksa_request option" where
  "handleAddDokaksa dokaksaForm studentId =
    (if trim (form_subject_name dokaksaForm) = [] then None
     else Some (InsertRow \<lparr> row_student_id = studentId, row_stage = form_stage dokaksaForm,
                            row_subject_name = trim (form_subject_name dokaksaForm),
                            row_credits = form_credits dokaksaForm,
                            row_credit_type = None \<rparr>))"

text \<open>
  The rule of the specification for the credit type of an entry, in its words: stage 1
  is liberal; otherwise major when the preset has a category equal to the student's
  declared major, else general. A manual entry has no preset.
\<close>

definition creditTypeRule :: "jstring \<Rightarrow> jstring option \<Rightarrow> jstring option \<Rightarrow> SubjectCategory" where
  "creditTypeRule stage presetCategory major =
    (if stage = str_stage1 then Liberal
     else if presetCategory \<noteq> None \<and> presetCategory = major then Major
     else General)"

text \<open>The credit type a request carries for the row it inserts.\<close>

fun requestCreditType :: "dokaksa_request \<Rightarrow> SubjectCategory option" where
  "requestCreditType (DeleteRow k) = None"
| "requestCreditType (InsertRow r) = row_credit_type r"


section \<open>Loading the plan\<close>

text \<open>
  \<open>parseClassStart\<close> splits the field at commas, trims the pieces, drops the empty ones,
  and searches each piece for four digits, the year sign, optional white space, digits,
  the two units of the term sign, optional white space, digits and the cohort sign. A
  piece with no match gives nothing. White space and digits do not overlap and every
  literal of the pattern is neither, so the leftmost match takes each run whole.
\<close>

fun splitOn :: "nat \<Rightarrow> jstring \<Rightarrow> jstring list" where
  "splitOn sep [] = [[]]"
| "splitOn sep (c # cs) =
    (if c = sep then [] # splitOn sep cs
     else (case splitOn sep cs of [] \<Rightarrow> [[c]] | w # ws \<Rightarrow> (c # w) # ws))"

definition matchCohortAt :: "jstring \<Rightarrow> (jstring \<times> jstring \<times> jstring) option" where
  "matchCohortAt s =
    (let y = take 4 s in
     if length y = 4 \<and> list_all isDigit y then
       (case drop 4 s of
          [] \<Rightarrow> None
        | c # r2 \<Rightarrow>
            if c = 45380 then
              (let r3 = dropWhile isWhiteSpace r2;
                   t = takeWhile isDigit r3
               in if t = [] then None
                  else (case dropWhile isDigit r3 of
                          a # b # r5 \<Rightarrow>
                            if a = 54617 \<and> b = 44592 then
                              (let r6 = dropWhile isWhiteSpace r5;
                                   k = takeWhile isDigit r6
                               in if k = [] then None
                                  else (case dropWhile isDigit r6 of
                                          [] \<Rightarrow> None
                                        | g # r8 \<Rightarrow> if g = 44592 then Some (y, t, k) else None))
                            else None
                        | _ \<Rightarrow> None))
            else None)
     else None)"

fun searchCohort :: "jstring \<Rightarrow> (jstring \<times> jstring \<times> jstring) option" where
  "searchCohort [] = matchCohortAt []"
| "searchCohort (c # cs) =
    (case matchCohortAt (c # cs) of Some m \<Rightarrow> Some m | None \<Rightarrow> searchCohort cs)"

definition parseClassStart :: "jstring option \<Rightarrow> Semester list" where
  "parseClassStart classStart =
    (case classStart of
       None \<Rightarrow> []
     | Some s \<Rightarrow>
         if s = [] then []
         else concat (map (\<lambda>(idx, v).
                             case searchCohort v of
                               None \<Rightarrow> []
                             | Some (y, t, k) \<Rightarrow>
                                 [\<lparr> sem_id = int idx, sem_year = y, sem_term = int (decimalValue t),
                                    class_number = int (decimalValue k),
                                    sem_label = [], sem_months = [] \<rparr>])
                          (enumerate 0 (filter (\<lambda>v. v \<noteq> []) (map trim (splitOn 44 s))))))"

text \<open>
  The stored plan. Its semesters may lack a class number, which loading replaces by 1;
  the list itself may be absent or empty, and then the two initial semesters stand.
\<close>

record StoredSemester =
  st_id :: int
  st_year :: jstring
  st_term :: int
  st_class_number :: "int option"
  st_label :: jstring
  st_months :: jstring

record StoredPlan =
  plan_semesters :: "StoredSemester list option"
  plan_semester_subjects :: "assignments option"
  plan_semester_dates :: "(int \<times> SemesterDates) list option"

definition loadedSemester :: "StoredSemester \<Rightarrow> Semester" where
  "loadedSemester s =
    \<lparr> sem_id = st_id s, sem_year = st_year s, sem_term = st_term s,
      class_number = (case st_class_number s of None \<Rightarrow> 1 | Some n \<Rightarrow> n),
      sem_label = st_label s, sem_months = st_months s \<rparr>"

definition planSemesters :: "StoredPlan option \<Rightarrow> Semester list" where
  "planSemesters planData =
    (case planData of
       None \<Rightarrow> INITIAL_SEMESTERS
     | Some p \<Rightarrow>
         (case plan_semesters p of
            None \<Rightarrow> INITIAL_SEMESTERS
          | Some [] \<Rightarrow> INITIAL_SEMESTERS
          | Some (s # ss) \<Rightarrow> map loadedSemester (s # ss)))"

definition sameCohort :: "Semester \<Rightarrow> Semester \<Rightarrow> bool" where
  "sameCohort s cs =
    (sem_year s = sem_year cs \<and> sem_term s = sem_term cs \<and> class_number s = class_number cs)"

text \<open>
  The loop that appends the cohorts of \<open>class_start\<close> the plan does not have yet. Each
  test looks at the list as grown so far.
\<close>

fun appendMissing :: "Semester list \<Rightarrow> int \<Rightarrow> Semester list \<Rightarrow> Semester list" where
  "appendMissing finalSemesters nextId [] = finalSemesters"
| "appendMissing finalSemesters nextId (cs # rest) =
    (if list_ex (\<lambda>s. sameCohort s cs) finalSemesters then
       appendMissing finalSemesters nextId rest
     else appendMissing (finalSemesters @ [cs\<lparr> sem_id := nextId \<rparr>]) (nextId + 1) rest)"

text \<open>
  \<open>Math.max\<close> over the ids of a list of semesters. The list is never empty where
  loading calls it (lemma \<open>planSemesters_nonempty\<close>).
\<close>

definition maxSemesterId :: "Semester list \<Rightarrow> int" where
  "maxSemesterId sems = (case sems of [] \<Rightarrow> 0 | s # ss \<Rightarrow> foldl max (sem_id s) (map sem_id ss))"

definition loadSemesters :: "jstring option \<Rightarrow> StoredPlan option \<Rightarrow> Semester list" where
  "loadSemesters classStart planData =
    (let finalSemesters = planSemesters planData;
         csItems = parseClassStart classStart
     in if length csItems > 0 then
          (let hasAnyMatch = list_ex (\<lambda>cs. list_ex (\<lambda>s. sameCohort s cs) finalSemesters) csItems
           in if \<not> hasAnyMatch \<and> planData = None then
                map (\<lambda>(i, cs). cs\<lparr> sem_id := int i \<rparr>) (enumerate 0 csItems)
              else appendMissing finalSemesters (maxSemesterId finalSemesters + 1) csItems)
        else finalSemesters)"

text \<open>The plan as the page stores it again: every semester with its class number.\<close>

definition storedSemester :: "Semester \<Rightarrow> StoredSemester" where
  "storedSemester s =
    \<lparr> st_id = sem_id s, st_year = sem_year s, st_term = sem_term s,
      st_class_number = Some (class_number s),
      st_label = sem_label s, st_months = sem_months s \<rparr>"


section \<open>Sample data\<close>

text \<open>
  Two subjects and a plan of the two initial semesters, with one subject in each; the
  inputs at which the theorems below are exercised.
\<close>

definition sampleSubjects :: "Subject list" where
  "sampleSubjects =
    [\<lparr> subj_id = 1, category = Major, subj_name = [65], credits = 3, subj_kind = Theory,
       subject_type = Some Required, student_id = None \<rparr>,
     \<lparr> subj_id = 2, category = Liberal, subj_name = [66], credits = 2, subj_kind = Theory,
       subject_type = Some Elective, student_id = Some [115] \<rparr>]"

definition samplePlan :: plan_state where
  "samplePlan =
    \<lparr> semesters = INITIAL_SEMESTERS,
      semesterSubjects = [(0, [1]), (1, [2])],
      semesterDates = [(0, \<lparr> date_start = [], date_end = [] \<rparr>)],
      selectedSemester = 0,
      subjects = sampleSubjects \<rparr>"

text \<open>
  The scenario of the specification for the aggregator: four assigned major subjects of
  five credits, one prior-institution major subject of three, one self-study entry of
  four typed major, and a certificate of two.
\<close>

definition majorSubjects :: "Subject list" where
  "majorSubjects =
    map (\<lambda>i. \<lparr> subj_id = i, category = Major, subj_name = [65], credits = 5,
                 subj_kind = Theory, subject_type = Some Required, student_id = None \<rparr>)
        [1, 2, 3, 4]"

definition samplePrev :: "PrevSubject list" where
  "samplePrev =
    [\<lparr> prev_id = [112], prev_student_id = [115], prev_category = Major, prev_name = [80],
       prev_credits = 3 \<rparr>]"

definition sampleDokaksa :: "DokaksaEntry list" where
  "sampleDokaksa =
    [\<lparr> dok_id = [100], dok_student_id = [115], dok_stage = [50, 45800, 44228],
       dok_subject_name = [68], dok_credits = 4, credit_type = Major \<rparr>]"

definition sampleCerts :: "CreditCert list" where
  "sampleCerts =
    [\<lparr> cert_id = [99], cert_student_id = [115], cert_name = [67], cert_credits = 2,
       acquired_date = None \<rparr>]"

text \<open>
  A manual self-study entry of stage 1 with the name \<open>A\<close> and four credits, and a
  \<open>class_start\<close> field naming the first cohort of the first term of 2025.
\<close>

definition sampleForm :: DokaksaForm where
  "sampleForm = \<lparr> form_stage = str_stage1, form_subject_name = [65], form_credits = 4 \<rparr>"

definition sampleClassStart :: jstring where
  "sampleClassStart = [50, 48, 50, 53, 45380, 32, 49, 54617, 44592, 32, 49, 44592]"

text \<open>
  The sample plan with a second cohort in the first term of 2025, and a plan with a
  single semester.
\<close>

definition cohortPlan :: plan_state where
  "cohortPlan =
    samplePlan\<lparr> semesters := INITIAL_SEMESTERS @
      [\<lparr> sem_id = 2, sem_year = [50, 48, 50, 53], sem_term = 1, class_number = 2,
         sem_label = [], sem_months = [] \<rparr>] \<rparr>"

text \<open>The key of the group of the first term of 2025, \<open>2025-1\<close>.\<close>

definition sampleGroupKey :: jstring where
  "sampleGroupKey = [50, 48, 50, 53, 45, 49]"

definition singlePlan :: plan_state where
  "singlePlan = samplePlan\<lparr> semesters := [hd INITIAL_SEMESTERS] \<rparr>"

text \<open>
  A plan at both caps: eight subjects in the first term of 2025 and six in the second,
  fourteen in the year.
\<close>

definition fullPlan :: plan_state where
  "fullPlan =
    samplePlan\<lparr> semesterSubjects := [(0, [1, 2, 3, 4, 5, 6, 7, 8]), (1, [9, 10, 11, 12, 13, 14])] \<rparr>"

text \<open>
  A sequence of operations on the sample plan: a click on an assigned subject, a click
  on a free one, a change of cohort, a second click on the same subject, a removal, the
  deletion of a subject and the deletion of a semester.
\<close>

definition sampleOps :: "plan_op list" where
  "sampleOps =
    [SubjectClick 1, SubjectClick 5, SelectSemester 1, SubjectClick 5, RemoveAssigned 2,
     DeleteSubject 1 None, DeleteSemester 0]"


section \<open>Properties of the profile resolver\<close>

lemmas str_defs =
  str_practicum_def str_bachelor_def str_highschool_def str_dropout2_def str_dropout3_def
  str_dropout4_def str_grad2_def str_grad3_def str_grad4_def str_major_def str_liberal_def
  str_general_def str_stage1_def str_blue_def str_green_def str_amber_def

lemmas group_defs = JUNGTAE_GROUP_def TWOTHREE_GRAD_def GRAD_ALL_def

lemma getPlanConfig_total_cases:
  "totalTarget (getPlanConfig e c d) \<in> {6, 140, 80, 51}"
  by (simp add: getPlanConfig_def Let_def)

lemma getPlanConfig_total_pos: "0 < totalTarget (getPlanConfig e c d)"
  by (simp add: getPlanConfig_def Let_def)

text \<open>
  Claim C1. The resolver follows the first-match decision order: a course name containing
  the practicum marker gives the practicum profile (total 6, subject target 6, the single
  target major 6, practicum requirement 4 required and 2 elective) whatever the education
  level; otherwise an attrition-group level seeking a bachelor's degree gives total 140 with
  major 60, liberal 30, general 50; an attrition-group level with any other desired degree
  gives total 80 with 45, 15, 20; a two- or three-year graduate seeking a bachelor's degree
  gives the 140 profile again; every remaining case, an unset or unrecognised level
  included, gives the minimal profile: total 51, subject target 8, the single target
  major 51.
\<close>

theorem getPlanConfig_decision_order:
  "(let cfg = getPlanConfig e c d in
     (isPracticum c \<longrightarrow>
        totalTarget cfg = 6 \<and> subjectTarget cfg = Some 6 \<and>
        categoryTargets cfg = [(str_major, 6)] \<and>
        practice cfg = Some \<lparr> required = 4, elective = 2 \<rparr>) \<and>
     (\<not> isPracticum c \<and> levelOf e \<in> set JUNGTAE_GROUP \<and> d = Some str_bachelor \<longrightarrow>
        totalTarget cfg = 140 \<and>
        categoryTargets cfg = [(str_major, 60), (str_liberal, 30), (str_general, 50)]) \<and>
     (\<not> isPracticum c \<and> levelOf e \<in> set JUNGTAE_GROUP \<and> d \<noteq> Some str_bachelor \<longrightarrow>
        totalTarget cfg = 80 \<and>
        categoryTargets cfg = [(str_major, 45), (str_liberal, 15), (str_general, 20)]) \<and>
     (\<not> isPracticum c \<and> levelOf e \<in> set TWOTHREE_GRAD \<and> d = Some str_bachelor \<longrightarrow>
        totalTarget cfg = 140 \<and>
        categoryTargets cfg = [(str_major, 60), (str_liberal, 30), (str_general, 50)]) \<and>
     (\<not> isPracticum c \<and> levelOf e \<notin> set JUNGTAE_GROUP \<and>
      \<not> (levelOf e \<in> set TWOTHREE_GRAD \<and> d = Some str_bachelor) \<longrightarrow>
        totalTarget cfg = 51 \<and> subjectTarget cfg = Some 8 \<and>
        categoryTargets cfg = [(str_major, 51)] \<and> practice cfg = None))"
  by (simp add: getPlanConfig_def isPracticum_def levelOf_def categoryTargets_def Let_def)

text \<open>
  The five rows of the table at work: a practicum course for a high-school graduate; a
  high-school graduate seeking a bachelor's degree; one seeking none; a two-year graduate
  seeking a bachelor's degree; a four-year graduate seeking one, and an unset level.
  The course name of the last five is the two units U+AD6C U+BC95.
\<close>

theorem getPlanConfig_decision_order_witness:
  "isPracticum (Some [65, 49892, 49845, 66]) \<and>
   totalTarget (getPlanConfig (Some str_highschool) (Some [65, 49892, 49845, 66]) (Some str_bachelor)) = 6 \<and>
   \<not> isPracticum (Some [44396, 48277]) \<and> levelOf (Some str_highschool) \<in> set JUNGTAE_GROUP \<and>
   categoryTargets (getPlanConfig (Some str_highschool) (Some [44396, 48277]) (Some str_bachelor))
     = [(str_major, 60), (str_liberal, 30), (str_general, 50)] \<and>
   totalTarget (getPlanConfig (Some str_highschool) (Some [44396, 48277]) None) = 80 \<and>
   levelOf (Some str_grad2) \<in> set TWOTHREE_GRAD \<and>
   totalTarget (getPlanConfig (Some str_grad2) (Some [44396, 48277]) (Some str_bachelor)) = 140 \<and>
   levelOf (Some str_grad4) \<notin> set JUNGTAE_GROUP \<and> levelOf (Some str_grad4) \<notin> set TWOTHREE_GRAD \<and>
   categoryTargets (getPlanConfig (Some str_grad4) (Some [44396, 48277]) (Some str_bachelor))
     = [(str_major, 51)] \<and>
   subjectTarget (getPlanConfig None None None) = Some 8"
  using getPlanConfig_decision_order [where c = "Some [65, 49892, 49845, 66]" and e = "Some str_highschool" and d = "Some str_bachelor"]
    getPlanConfig_decision_order [where c = "Some [44396, 48277]" and e = "Some str_highschool" and d = "Some str_bachelor"]
    getPlanConfig_decision_order [where c = "Some [44396, 48277]" and e = "Some str_highschool" and d = None]
    getPlanConfig_decision_order [where c = "Some [44396, 48277]" and e = "Some str_grad2" and d = "Some str_bachelor"]
    getPlanConfig_decision_order [where c = "Some [44396, 48277]" and e = "Some str_grad4" and d = "Some str_bachelor"]
    getPlanConfig_decision_order [where c = None and e = None and d = None]
  by (simp add: isPracticum_def levelOf_def group_defs str_defs Let_def)

text \<open>
  Claim C2. For every education level, course name and desired degree, the category
  targets of the resolved profile add up to its total target.
\<close>

theorem getPlanConfig_targets_sum:
  "targetSum (getPlanConfig e c d) = totalTarget (getPlanConfig e c d)"
  by (simp add: getPlanConfig_def targetSum_def Let_def)


section \<open>Progress percentage\<close>

lemma mathRound_nonneg: "0 \<le> x \<Longrightarrow> 0 \<le> mathRound x"
  by (simp add: mathRound_def)

lemma progress_range_pos:
  assumes "0 \<le> earned" "0 < tgt"
  shows "0 \<le> progress earned tgt \<and> progress earned tgt \<le> 100"
proof -
  have "0 \<le> real_of_int earned / real_of_int tgt * 100"
    using assms by simp
  then have "0 \<le> mathRound (real_of_int earned / real_of_int tgt * 100)"
    by (rule mathRound_nonneg)
  then show ?thesis by (simp add: progress_def)
qed

lemma progress_90_51: "progress 90 51 = 100"
proof -
  have "mathRound (real_of_int 90 / real_of_int 51 * 100) = 176"
    unfolding mathRound_def by (simp add: floor_eq_iff)
  then show ?thesis by (simp add: progress_def)
qed

text \<open>
  Claim C9. For every non-negative total of earned credits and every profile the
  resolver returns, the progress percentage lies between 0 and 100; 90 credits earned
  against a target of 51 give 100. The quotient is exact here; the bounds rest only on
  its sign and on the cap, which rounding of the quotient does not disturb.
\<close>

theorem progress_in_range:
  "(0 \<le> earned \<longrightarrow>
      0 \<le> progress earned (totalTarget (getPlanConfig e c d)) \<and>
      progress earned (totalTarget (getPlanConfig e c d)) \<le> 100) \<and>
   progress 90 51 = 100"
  using progress_range_pos [OF _ getPlanConfig_total_pos] progress_90_51 by blast

theorem progress_in_range_witness:
  "(0::int) \<le> 90 \<and> totalTarget (getPlanConfig None None None) = 51 \<and>
   progress 90 (totalTarget (getPlanConfig None None None)) = 100 \<and>
   0 \<le> progress 0 (totalTarget (getPlanConfig None None None))"
  using progress_in_range [where earned = 90 and e = None and c = None and d = None]
    progress_in_range [where earned = 0 and e = None and c = None and d = None]
  by (simp add: getPlanConfig_def group_defs str_defs)


section \<open>Deleting a subject\<close>

lemma handleDeleteSubject_lookup:
  "map_of (map (\<lambda>(k, v). (k, filter (\<lambda>sid. sid \<noteq> x) v)) m) k =
   map_option (filter (\<lambda>sid. sid \<noteq> x)) (map_of m k)"
  by (induction m) auto

lemma handleDeleteSubject_subjectsOf:
  "subjectsOf (semesterSubjects (fst (handleDeleteSubject st subjectId None))) k =
   filter (\<lambda>sid. sid \<noteq> subjectId) (subjectsOf (semesterSubjects st) k)"
  by (simp add: handleDeleteSubject_def subjectsOf_def handleDeleteSubject_lookup
      split: option.splits)

lemma handleDeleteSubject_unused:
  "\<not> isSubjectUsed (fst (handleDeleteSubject st subjectId None)) subjectId"
  by (auto simp: handleDeleteSubject_def isSubjectUsed_def assignedIds_def)

lemma handleDeleteSubject_keys:
  "map fst (semesterSubjects (fst (handleDeleteSubject st subjectId err))) =
   map fst (semesterSubjects st)"
  by (simp add: handleDeleteSubject_def case_prod_unfold comp_def split: option.splits)

lemma assignedIds_after_delete:
  "set (assignedIds (fst (handleDeleteSubject st subjectId None))) = set (assignedIds st) - {subjectId}"
  by (auto simp: handleDeleteSubject_def assignedIds_def)

lemma subjects_after_delete:
  "subj_id ` set (subjects (fst (handleDeleteSubject st subjectId None))) = subj_id ` set (subjects st) - {subjectId}"
  by (auto simp: handleDeleteSubject_def)

lemma handleDeleteSubject_referenced:
  assumes "set (assignedIds st) \<subseteq> subj_id ` set (subjects st)"
  shows "set (assignedIds (fst (handleDeleteSubject st subjectId None)))
           \<subseteq> subj_id ` set (subjects (fst (handleDeleteSubject st subjectId None)))"
  using assms unfolding assignedIds_after_delete subjects_after_delete by blast

text \<open>
  Claim C10. After a successful deletion of a subject its id is in no assignment list:
  for every semester id the list afterwards is the list before with that id filtered
  out, the dictionary keeps its keys, the subject is gone from the subject list, and
  when every assignment referred to a subject the student had, every assignment still
  does.
\<close>

theorem handleDeleteSubject_cascades:
  "(let st' = fst (handleDeleteSubject st subjectId None) in
     (\<forall>k. subjectsOf (semesterSubjects st') k =
            filter (\<lambda>sid. sid \<noteq> subjectId) (subjectsOf (semesterSubjects st) k)) \<and>
     (\<forall>k. subjectId \<notin> set (subjectsOf (semesterSubjects st') k)) \<and>
     map fst (semesterSubjects st') = map fst (semesterSubjects st) \<and>
     \<not> isSubjectUsed st' subjectId \<and>
     subjectId \<notin> subj_id ` set (subjects st') \<and>
     (set (assignedIds st) \<subseteq> subj_id ` set (subjects st) \<longrightarrow>
        set (assignedIds st') \<subseteq> subj_id ` set (subjects st')))"
proof -
  have subj: "subjectId \<notin> subj_id ` set (subjects (fst (handleDeleteSubject st subjectId None)))"
    by (auto simp: handleDeleteSubject_def)
  show ?thesis
    unfolding Let_def
    using subj handleDeleteSubject_keys [of st subjectId None]
      handleDeleteSubject_unused [of st subjectId]
      handleDeleteSubject_referenced [of st subjectId]
    by (simp add: handleDeleteSubject_subjectsOf)
qed

theorem handleDeleteSubject_cascades_witness:
  "set (assignedIds samplePlan) \<subseteq> subj_id ` set (subjects samplePlan) \<and>
   semesterSubjects (fst (handleDeleteSubject samplePlan 1 None)) = [(0, []), (1, [2])] \<and>
   subjectsOf (semesterSubjects (fst (handleDeleteSubject samplePlan 1 None))) 0 = [] \<and>
   set (assignedIds (fst (handleDeleteSubject samplePlan 1 None)))
     \<subseteq> subj_id ` set (subjects (fst (handleDeleteSubject samplePlan 1 None)))"
proof -
  note t = handleDeleteSubject_cascades [of samplePlan 1, unfolded Let_def]
  have pre: "set (assignedIds samplePlan) \<subseteq> subj_id ` set (subjects samplePlan)"
    by (simp add: samplePlan_def sampleSubjects_def assignedIds_def)
  have after: "semesterSubjects (fst (handleDeleteSubject samplePlan 1 None)) = [(0, []), (1, [2])]"
    by (simp add: samplePlan_def handleDeleteSubject_def)
  from t have "subjectsOf (semesterSubjects (fst (handleDeleteSubject samplePlan 1 None))) 0 =
      filter (\<lambda>sid. sid \<noteq> 1) (subjectsOf (semesterSubjects samplePlan) 0)"
    by blast
  then have list0: "subjectsOf (semesterSubjects (fst (handleDeleteSubject samplePlan 1 None))) 0 = []"
    by (simp add: samplePlan_def subjectsOf_def)
  from t pre have "set (assignedIds (fst (handleDeleteSubject samplePlan 1 None)))
      \<subseteq> subj_id ` set (subjects (fst (handleDeleteSubject samplePlan 1 None)))"
    by blast
  with pre after list0 show ?thesis by blast
qed


section \<open>Aggregated credits\<close>

lemma creditsIn_bump:
  "creditsIn (bump m c n) c' = creditsIn m c' + (if c' = c then n else 0)"
  by (simp add: creditsIn_def bump_def)

lemma creditsIn_fold_bump:
  "creditsIn (foldl (\<lambda>m x. bump m (k x) (v x)) m0 xs) c =
   creditsIn m0 c + sum_list (map v (filter (\<lambda>x. k x = c) xs))"
  by (induction xs arbitrary: m0) (auto simp: creditsIn_bump)

lemma creditsIn_fold_assigned:
  "creditsIn (foldl (\<lambda>m sid. case find (\<lambda>s. subj_id s = sid) subjs of
                                None \<Rightarrow> m
                              | Some s \<Rightarrow> bump m (category s) (credits s)) m0 assigned) c =
   creditsIn m0 c + assignedCredits assigned subjs c"
proof (induction assigned arbitrary: m0)
  case Nil
  then show ?case by (simp add: assignedCredits_def)
next
  case (Cons sid rest)
  show ?case
  proof (cases "find (\<lambda>s. subj_id s = sid) subjs")
    case None
    then show ?thesis using Cons.IH [of m0] by (simp add: assignedCredits_def)
  next
    case (Some s)
    then show ?thesis
      using Cons.IH [of "bump m0 (category s) (credits s)"]
      by (simp add: assignedCredits_def creditsIn_bump)
  qed
qed

lemma creditsIn_empty: "creditsIn Map.empty c = 0"
  by (simp add: creditsIn_def)

lemma creditsIn_creditsByCategory:
  "creditsIn (creditsByCategory assigned subjs prevSubjects dokaksaList) c =
   assignedCredits assigned subjs c + prevCredits prevSubjects c + dokaksaCreditsIn dokaksaList c"
  by (simp add: creditsByCategory_def Let_def creditsIn_fold_bump creditsIn_fold_assigned
      prevCredits_def dokaksaCreditsIn_def creditsIn_empty)

lemma sum_objectValues:
  "foldl (\<lambda>a b. a + b) 0 (objectValues m) =
   creditsIn m Major + creditsIn m Liberal + creditsIn m General"
  by (cases "m Major"; cases "m Liberal"; cases "m General")
     (simp_all add: objectValues_def List.map_filter_simps creditsIn_def)

lemma foldl_plus_sum_list: "foldl (\<lambda>s x. s + f x) (a::int) xs = a + sum_list (map f xs)"
  by (induction xs arbitrary: a) simp_all

lemma split_by_category:
  "sum_list (map v (filter (\<lambda>x. k x = Major) xs)) +
   sum_list (map v (filter (\<lambda>x. k x = Liberal) xs)) +
   sum_list (map v (filter (\<lambda>x. k x = General) xs)) = (sum_list (map v xs) :: int)"
proof (induction xs)
  case Nil
  then show ?case by simp
next
  case (Cons x xs)
  then show ?case by (cases "k x") simp_all
qed

lemma assignedCredits_split:
  "assignedCredits assigned subjs Major + assignedCredits assigned subjs Liberal +
   assignedCredits assigned subjs General = assignedTotal assigned subjs"
proof (induction assigned)
  case Nil
  then show ?case by (simp add: assignedCredits_def assignedTotal_def)
next
  case (Cons sid rest)
  show ?case
  proof (cases "find (\<lambda>s. subj_id s = sid) subjs")
    case None
    then show ?thesis using Cons.IH by (simp add: assignedCredits_def assignedTotal_def)
  next
    case (Some s)
    then show ?thesis using Cons.IH
      by (cases "category s") (simp_all add: assignedCredits_def assignedTotal_def)
  qed
qed

lemma totalCredits_by_source:
  "totalCredits assigned subjs prevSubjects dokaksaList creditCerts =
   assignedTotal assigned subjs + sum_list (map prev_credits prevSubjects) +
   sum_list (map dok_credits dokaksaList) + sum_list (map cert_credits creditCerts)"
proof -
  have p: "prevCredits prevSubjects Major + prevCredits prevSubjects Liberal +
      prevCredits prevSubjects General = sum_list (map prev_credits prevSubjects)"
    unfolding prevCredits_def by (rule split_by_category)
  have d: "dokaksaCreditsIn dokaksaList Major + dokaksaCreditsIn dokaksaList Liberal +
      dokaksaCreditsIn dokaksaList General = sum_list (map dok_credits dokaksaList)"
    unfolding dokaksaCreditsIn_def by (rule split_by_category)
  have c: "certCredits creditCerts = sum_list (map cert_credits creditCerts)"
    by (simp add: certCredits_def foldl_plus_sum_list)
  show ?thesis
    using p d c assignedCredits_split [of assigned subjs]
    by (simp add: totalCredits_def sum_objectValues creditsIn_creditsByCategory)
qed

text \<open>
  Claim C5. The grand total is the sum of the category totals plus the certificate
  total. A category total is what the assigned subjects, the prior-institution subjects
  and the self-study entries of that category bring, so every self-study entry is counted
  once, under its credit type, and the grand total is the plain sum of the four sources.
  With assigned subjects worth 20 major credits, one prior major subject of 3 and one
  self-study entry of 4 typed major, the major total is 27.
\<close>

theorem totalCredits_sources:
  "(let m = creditsByCategory assigned subjs prevSubjects dokaksaList in
     totalCredits assigned subjs prevSubjects dokaksaList creditCerts =
       creditsIn m Major + creditsIn m Liberal + creditsIn m General + certCredits creditCerts \<and>
     (\<forall>c. creditsIn m c =
        assignedCredits assigned subjs c + prevCredits prevSubjects c + dokaksaCreditsIn dokaksaList c) \<and>
     totalCredits assigned subjs prevSubjects dokaksaList creditCerts =
       assignedTotal assigned subjs + sum_list (map prev_credits prevSubjects) +
       sum_list (map dok_credits dokaksaList) + sum_list (map cert_credits creditCerts) \<and>
     (assignedCredits assigned subjs Major = 20 \<and>
      map (\<lambda>s. (prev_category s, prev_credits s)) prevSubjects = [(Major, 3)] \<and>
      map (\<lambda>d. (credit_type d, dok_credits d)) dokaksaList = [(Major, 4)] \<longrightarrow>
        creditsIn m Major = 27))"
proof -
  have ex: "creditsIn (creditsByCategory assigned subjs prevSubjects dokaksaList) Major = 27"
    if "assignedCredits assigned subjs Major = 20"
      and "map (\<lambda>s. (prev_category s, prev_credits s)) prevSubjects = [(Major, 3)]"
      and "map (\<lambda>d. (credit_type d, dok_credits d)) dokaksaList = [(Major, 4)]"
  proof -
    from that(2) obtain p where p: "prevSubjects = [p]" "prev_category p = Major" "prev_credits p = 3"
      by auto
    from that(3) obtain d where d: "dokaksaList = [d]" "credit_type d = Major" "dok_credits d = 4"
      by auto
    show ?thesis
      using that(1) p d
      by (simp add: creditsIn_creditsByCategory prevCredits_def dokaksaCreditsIn_def)
  qed
  have tot: "totalCredits assigned subjs prevSubjects dokaksaList creditCerts =
       creditsIn (creditsByCategory assigned subjs prevSubjects dokaksaList) Major +
       creditsIn (creditsByCategory assigned subjs prevSubjects dokaksaList) Liberal +
       creditsIn (creditsByCategory assigned subjs prevSubjects dokaksaList) General +
       certCredits creditCerts"
    by (simp add: totalCredits_def sum_objectValues)
  show ?thesis
    unfolding Let_def
  proof (intro conjI allI impI)
    show "totalCredits assigned subjs prevSubjects dokaksaList creditCerts =
       creditsIn (creditsByCategory assigned subjs prevSubjects dokaksaList) Major +
       creditsIn (creditsByCategory assigned subjs prevSubjects dokaksaList) Liberal +
       creditsIn (creditsByCategory assigned subjs prevSubjects dokaksaList) General +
       certCredits creditCerts"
      by (rule tot)
  next
    fix c
    show "creditsIn (creditsByCategory assigned subjs prevSubjects dokaksaList) c =
        assignedCredits assigned subjs c + prevCredits prevSubjects c + dokaksaCreditsIn dokaksaList c"
      by (rule creditsIn_creditsByCategory)
  next
    show "totalCredits assigned subjs prevSubjects dokaksaList creditCerts =
       assignedTotal assigned subjs + sum_list (map prev_credits prevSubjects) +
       sum_list (map dok_credits dokaksaList) + sum_list (map cert_credits creditCerts)"
      by (rule totalCredits_by_source)
  next
    assume h: "assignedCredits assigned subjs Major = 20 \<and>
      map (\<lambda>s. (prev_category s, prev_credits s)) prevSubjects = [(Major, 3)] \<and>
      map (\<lambda>d. (credit_type d, dok_credits d)) dokaksaList = [(Major, 4)]"
    show "creditsIn (creditsByCategory assigned subjs prevSubjects dokaksaList) Major = 27"
      by (rule ex [OF conjunct1 [OF h] conjunct1 [OF conjunct2 [OF h]] conjunct2 [OF conjunct2 [OF h]]])
  qed
qed

lemma sample_assigned_major: "assignedCredits [1, 2, 3, 4] majorSubjects Major = 20"
  by (simp add: assignedCredits_def majorSubjects_def)

theorem totalCredits_sources_witness:
  "assignedCredits [1, 2, 3, 4] majorSubjects Major = 20 \<and>
   map (\<lambda>s. (prev_category s, prev_credits s)) samplePrev = [(Major, 3)] \<and>
   map (\<lambda>d. (credit_type d, dok_credits d)) sampleDokaksa = [(Major, 4)] \<and>
   creditsIn (creditsByCategory [1, 2, 3, 4] majorSubjects samplePrev sampleDokaksa) Major = 27 \<and>
   totalCredits [1, 2, 3, 4] majorSubjects samplePrev sampleDokaksa sampleCerts = 29"
proof -
  note t = totalCredits_sources [of "[1, 2, 3, 4]" majorSubjects samplePrev sampleDokaksa sampleCerts,
      unfolded Let_def]
  have a: "assignedCredits [1, 2, 3, 4] majorSubjects Major = 20"
    by (rule sample_assigned_major)
  have p: "map (\<lambda>s. (prev_category s, prev_credits s)) samplePrev = [(Major, 3)]"
    by (simp add: samplePrev_def)
  have d: "map (\<lambda>d. (credit_type d, dok_credits d)) sampleDokaksa = [(Major, 4)]"
    by (simp add: sampleDokaksa_def)
  have m: "creditsIn (creditsByCategory [1, 2, 3, 4] majorSubjects samplePrev sampleDokaksa) Major = 27"
    by (rule t [THEN conjunct2, THEN conjunct2, THEN conjunct2, THEN mp, OF conjI [OF a conjI [OF p d]]])
  have at: "assignedTotal [1, 2, 3, 4] majorSubjects = 20"
    by (simp add: assignedTotal_def majorSubjects_def)
  have "totalCredits [1, 2, 3, 4] majorSubjects samplePrev sampleDokaksa sampleCerts =
       assignedTotal [1, 2, 3, 4] majorSubjects + sum_list (map prev_credits samplePrev) +
       sum_list (map dok_credits sampleDokaksa) + sum_list (map cert_credits sampleCerts)"
    by (rule t [THEN conjunct2, THEN conjunct2, THEN conjunct1])
  then have tot: "totalCredits [1, 2, 3, 4] majorSubjects samplePrev sampleDokaksa sampleCerts = 29"
    by (simp add: at samplePrev_def sampleDokaksa_def sampleCerts_def)
  from a p d m tot show ?thesis by (intro conjI)
qed


section \<open>The credit type of self-study entries\<close>

text \<open>
  The preset path follows the rule of the specification whenever the student's major is
  not the empty string.
\<close>

lemma handleToggleDokaksaPreset_rule:
  assumes "find (\<lambda>d. dok_stage d = form_stage f \<and> dok_subject_name d = preset_name preset)
             dokaksaList = None"
    and "major \<noteq> Some []"
  shows "requestCreditType (handleToggleDokaksaPreset dokaksaList f major studentId preset) =
         Some (creditTypeRule (form_stage f) (Some (preset_category preset)) major)"
  using assms
  by (auto simp: handleToggleDokaksaPreset_def creditTypeRule_def Let_def split: option.splits)

lemma handleAddDokaksa_credit_type:
  "handleAddDokaksa f studentId = Some r \<Longrightarrow> requestCreditType r = None"
  by (auto simp: handleAddDokaksa_def split: if_splits)

text \<open>
  Claim C6. Every path that inserts a self-study entry is to give it its credit type by
  the rule: stage 1 liberal, otherwise major when the preset's category equals the
  student's major, else general. The manual path does not: for the stage-1 form named
  \<open>A\<close> with four credits it sends a row with no credit type at all, where the rule
  and the preset path, on the same form, say liberal.
\<close>

theorem handleAddDokaksa_omits_credit_type:
  "map_option requestCreditType (handleAddDokaksa sampleForm studentId) = Some None \<and>
   creditTypeRule (form_stage sampleForm) None major = Liberal \<and>
   requestCreditType (handleToggleDokaksaPreset [] sampleForm major studentId preset) = Some Liberal"
  by (simp add: handleAddDokaksa_def handleToggleDokaksaPreset_def creditTypeRule_def
      sampleForm_def trim_def isWhiteSpace_def)


section \<open>Reconciling the plan with \<open>class_start\<close>\<close>

lemma planSemesters_nonempty: "planSemesters planData \<noteq> []"
  by (simp add: planSemesters_def INITIAL_SEMESTERS_def split: option.splits list.splits)

lemma appendMissing_present:
  assumes "\<forall>cs \<in> set csItems. list_ex (\<lambda>s. sameCohort s cs) finalSemesters"
  shows "appendMissing finalSemesters nextId csItems = finalSemesters"
  using assms by (induction csItems) simp_all

lemma loadSemesters_present:
  assumes "\<forall>cs \<in> set (parseClassStart classStart).
             list_ex (\<lambda>s. sameCohort s cs) (planSemesters planData)"
  shows "loadSemesters classStart planData = planSemesters planData"
proof (cases "parseClassStart classStart")
  case Nil
  then show ?thesis by (simp add: loadSemesters_def)
next
  case (Cons cs rest)
  with assms have "list_ex (\<lambda>s. sameCohort s cs) (planSemesters planData)"
    by simp
  then have any: "list_ex (\<lambda>cs. list_ex (\<lambda>s. sameCohort s cs) (planSemesters planData))
      (parseClassStart classStart)"
    using Cons by simp
  show ?thesis
    using any assms Cons
    by (simp add: loadSemesters_def Let_def appendMissing_present del: appendMissing.simps)
qed

text \<open>What one load leaves behind represents every cohort of \<open>class_start\<close>.\<close>

lemma appendMissing_keeps:
  "list_ex P finalSemesters \<Longrightarrow> list_ex P (appendMissing finalSemesters nextId csItems)"
  by (induction csItems arbitrary: finalSemesters nextId) (auto simp: list_ex_iff)

lemma appendMissing_represents:
  "\<forall>cs \<in> set csItems. list_ex (\<lambda>s. sameCohort s cs) (appendMissing finalSemesters nextId csItems)"
proof (induction csItems arbitrary: finalSemesters nextId)
  case Nil
  then show ?case by simp
next
  case (Cons cs rest)
  show ?case
  proof (cases "list_ex (\<lambda>s. sameCohort s cs) finalSemesters")
    case True
    then have "list_ex (\<lambda>s. sameCohort s cs) (appendMissing finalSemesters nextId rest)"
      by (rule appendMissing_keeps)
    with True Cons.IH [of finalSemesters nextId] show ?thesis by simp
  next
    case False
    have "list_ex (\<lambda>s. sameCohort s cs) (finalSemesters @ [cs\<lparr> sem_id := nextId \<rparr>])"
      by (simp add: sameCohort_def)
    then have "list_ex (\<lambda>s. sameCohort s cs)
        (appendMissing (finalSemesters @ [cs\<lparr> sem_id := nextId \<rparr>]) (nextId + 1) rest)"
      by (rule appendMissing_keeps)
    with False Cons.IH [of "finalSemesters @ [cs\<lparr> sem_id := nextId \<rparr>]" "nextId + 1"]
    show ?thesis by simp
  qed
qed

lemma reindexed_represents:
  "\<forall>cs \<in> set csItems.
     list_ex (\<lambda>s. sameCohort s cs) (map (\<lambda>(i, cs). cs\<lparr> sem_id := int i \<rparr>) (enumerate n csItems))"
proof (induction csItems arbitrary: n)
  case Nil
  then show ?case by simp
next
  case (Cons cs rest)
  then show ?case by (auto simp: sameCohort_def list_ex_iff)
qed

lemma loadSemesters_represents:
  "\<forall>cs \<in> set (parseClassStart classStart).
     list_ex (\<lambda>s. sameCohort s cs) (loadSemesters classStart planData)"
  using appendMissing_represents reindexed_represents
  by (auto simp: loadSemesters_def Let_def)

lemma appendMissing_nonempty:
  "finalSemesters \<noteq> [] \<Longrightarrow> appendMissing finalSemesters nextId csItems \<noteq> []"
  by (induction csItems arbitrary: finalSemesters nextId) auto

lemma loadSemesters_nonempty: "loadSemesters classStart planData \<noteq> []"
  using planSemesters_nonempty [of planData]
  by (auto simp: loadSemesters_def Let_def appendMissing_nonempty enumerate_eq_zip)

lemma loaded_stored: "map loadedSemester (map storedSemester sems) = sems"
  by (induction sems) (simp_all add: loadedSemester_def storedSemester_def)

lemma planSemesters_stored:
  assumes "sems \<noteq> []"
  shows "planSemesters (Some (p\<lparr> plan_semesters := Some (map storedSemester sems) \<rparr>)) = sems"
proof -
  from assms obtain s ss where "sems = s # ss" by (cases sems) auto
  then show ?thesis
    using loaded_stored [of sems] by (simp add: planSemesters_def)
qed

text \<open>
  Claim C7. The reconciliation at load is idempotent. When every cohort parsed from
  \<open>class_start\<close> is represented in the semesters of the loaded plan, by year, term and
  class number, the semester list is left as it is. And a second load, of the plan that
  a first load produced and the page stored, with the same \<open>class_start\<close>, returns that
  plan's semesters unchanged.
\<close>

theorem loadSemesters_idempotent:
  "(list_all (\<lambda>cs. list_ex (\<lambda>s. sameCohort s cs) (planSemesters planData))
       (parseClassStart classStart) \<longrightarrow>
      loadSemesters classStart planData = planSemesters planData) \<and>
   loadSemesters classStart
     (Some (p\<lparr> plan_semesters := Some (map storedSemester (loadSemesters classStart planData)) \<rparr>))
     = loadSemesters classStart planData"
proof (intro conjI impI)
  assume "list_all (\<lambda>cs. list_ex (\<lambda>s. sameCohort s cs) (planSemesters planData))
       (parseClassStart classStart)"
  then show "loadSemesters classStart planData = planSemesters planData"
    by (intro loadSemesters_present) (simp add: list_all_iff)
next
  let ?again = "Some (p\<lparr> plan_semesters := Some (map storedSemester (loadSemesters classStart planData)) \<rparr>)"
  have same: "planSemesters ?again = loadSemesters classStart planData"
    by (rule planSemesters_stored [OF loadSemesters_nonempty])
  have "loadSemesters classStart ?again = planSemesters ?again"
  proof (rule loadSemesters_present)
    show "\<forall>cs \<in> set (parseClassStart classStart).
        list_ex (\<lambda>s. sameCohort s cs) (planSemesters ?again)"
      unfolding same by (rule loadSemesters_represents)
  qed
  with same show "loadSemesters classStart ?again = loadSemesters classStart planData"
    by simp
qed

theorem loadSemesters_idempotent_witness:
  "list_all (\<lambda>cs. list_ex (\<lambda>s. sameCohort s cs) (planSemesters None))
     (parseClassStart (Some sampleClassStart)) \<and>
   loadSemesters (Some sampleClassStart) None = INITIAL_SEMESTERS"
proof -
  have parsed: "parseClassStart (Some sampleClassStart) =
      [\<lparr> sem_id = 0, sem_year = [50, 48, 50, 53], sem_term = 1, class_number = 1,
         sem_label = [], sem_months = [] \<rparr>]"
    by (simp add: parseClassStart_def sampleClassStart_def trim_def isWhiteSpace_def
        matchCohortAt_def isDigit_def decimalValue_def Let_def)
  have pre: "list_all (\<lambda>cs. list_ex (\<lambda>s. sameCohort s cs) (planSemesters None))
     (parseClassStart (Some sampleClassStart))"
    unfolding parsed by (simp add: planSemesters_def INITIAL_SEMESTERS_def sameCohort_def)
  have "loadSemesters (Some sampleClassStart) None = planSemesters None"
    by (rule loadSemesters_idempotent [THEN conjunct1, THEN mp, OF pre])
  with pre show ?thesis by (simp add: planSemesters_def)
qed


section \<open>Group keys\<close>

text \<open>
  Two semesters with non-negative terms have the same group key exactly when they have
  the same year and the same term: the digits of the term hold no hyphen, so the last
  hyphen of the key is the separator, and the digits determine the term.
\<close>

lemma digitsOf_digits: "c \<in> set (digitsOf n) \<Longrightarrow> 48 \<le> c \<and> c \<le> 57"
proof (induction n arbitrary: c rule: digitsOf.induct)
  case (1 n)
  show ?case
  proof (cases "n < 10")
    case True
    with "1.prems" show ?thesis by (simp add: digitsOf.simps [of n])
  next
    case False
    have "digitsOf n = digitsOf (n div 10) @ [48 + n mod 10]"
      using False by (subst digitsOf.simps) simp
    with "1.prems" have "c \<in> set (digitsOf (n div 10)) \<or> c = 48 + n mod 10"
      by auto
    then show ?thesis
    proof
      assume "c \<in> set (digitsOf (n div 10))"
      with False "1.IH" show ?thesis by simp
    next
      assume "c = 48 + n mod 10"
      moreover have "n mod 10 < 10" by simp
      ultimately show ?thesis by linarith
    qed
  qed
qed

lemma decimalValue_snoc: "decimalValue (ds @ [c]) = 10 * decimalValue ds + (c - 48)"
  by (simp add: decimalValue_def)

lemma decimalValue_digitsOf: "decimalValue (digitsOf n) = n"
proof (induction n rule: digitsOf.induct)
  case (1 n)
  show ?case
  proof (cases "n < 10")
    case True
    then show ?thesis by (simp add: digitsOf.simps [of n] decimalValue_def)
  next
    case False
    with "1.IH" have "decimalValue (digitsOf (n div 10)) = n div 10" by simp
    with False show ?thesis
      by (simp add: digitsOf.simps [of n] decimalValue_snoc)
  qed
qed

lemma digitsOf_inj: "digitsOf a = digitsOf b \<Longrightarrow> a = b"
  by (metis decimalValue_digitsOf)

lemma numToString_nonneg: "0 \<le> i \<Longrightarrow> numToString i = digitsOf (nat i)"
  by (simp add: numToString_def)

lemma hyphen_not_digit: "45 \<notin> set (digitsOf n)"
  using digitsOf_digits [of 45 n] by auto

lemma split_at_last_hyphen:
  assumes "a @ 45 # d1 = b @ 45 # d2" and "(45::nat) \<notin> set d1" and "45 \<notin> set d2"
  shows "a = b \<and> d1 = d2"
  using assms
proof (induction a arbitrary: b)
  case Nil
  then show ?case by (cases b) auto
next
  case (Cons x a)
  then show ?case by (cases b) auto
qed

lemma groupKeyOf_eq_iff:
  assumes "0 \<le> sem_term s" and "0 \<le> sem_term t"
  shows "groupKeyOf s = groupKeyOf t \<longleftrightarrow> sem_year s = sem_year t \<and> sem_term s = sem_term t"
proof
  assume eq: "groupKeyOf s = groupKeyOf t"
  then have "sem_year s @ 45 # digitsOf (nat (sem_term s)) =
      sem_year t @ 45 # digitsOf (nat (sem_term t))"
    using assms by (simp add: groupKeyOf_def numToString_nonneg)
  then have "sem_year s = sem_year t \<and> digitsOf (nat (sem_term s)) = digitsOf (nat (sem_term t))"
    by (rule split_at_last_hyphen) (rule hyphen_not_digit)+
  then show "sem_year s = sem_year t \<and> sem_term s = sem_term t"
    using assms digitsOf_inj [of "nat (sem_term s)" "nat (sem_term t)"] by auto
next
  assume "sem_year s = sem_year t \<and> sem_term s = sem_term t"
  then show "groupKeyOf s = groupKeyOf t" by (simp add: groupKeyOf_def)
qed

lemma groupKeyOf_same: "sem_year s = sem_year t \<Longrightarrow> sem_term s = sem_term t \<Longrightarrow> groupKeyOf s = groupKeyOf t"
  by (simp add: groupKeyOf_def)

lemma groupKeyOf_nonempty: "groupKeyOf s \<noteq> []"
  by (simp add: groupKeyOf_def)


section \<open>Deleting a semester\<close>

text \<open>One call of the handler in an event, written out as a single change of state.\<close>

lemma handleDeleteSemester_unfold:
  "handleDeleteSemester st semId =
    (if length (semesters st) \<le> 1 then st
     else
       let remaining = filter (\<lambda>s. sem_id s \<noteq> semId) (semesters st);
           selected =
             (if selectedSemester st = semId then
                (case find (\<lambda>s. sem_id s = semId) (semesters st) of
                   Some deletedSem \<Rightarrow>
                     (let remainingGroup =
                            filter (\<lambda>s. groupKeyOf s = groupKeyOf deletedSem) remaining
                      in case remainingGroup of
                           g # _ \<Rightarrow> sem_id g
                         | [] \<Rightarrow> lastIdOr0 remaining)
                 | None \<Rightarrow> lastIdOr0 remaining)
              else selectedSemester st)
       in st\<lparr> semesters := remaining,
               semesterSubjects := AList.delete semId (semesterSubjects st),
               semesterDates := AList.delete semId (semesterDates st),
               selectedSemester := selected \<rparr>)"
  by (simp add: handleDeleteSemester_def deleteSemesterUpdates_def Let_def)

lemma filter_keeps_one:
  assumes "distinct (map sem_id sems)" and "1 < length sems"
  shows "filter (\<lambda>s. sem_id s \<noteq> k) sems \<noteq> []"
proof -
  from assms(2) obtain a b rest where sems: "sems = a # b # rest"
    by (cases sems; cases "tl sems") auto
  with assms(1) have "sem_id a \<noteq> sem_id b" by auto
  then have "sem_id a \<noteq> k \<or> sem_id b \<noteq> k" by auto
  then show ?thesis using sems by auto
qed

lemma handleDeleteSemester_rejected:
  "length (semesters st) \<le> 1 \<Longrightarrow> handleDeleteSemester st semId = st"
  by (simp add: handleDeleteSemester_unfold)

lemma handleDeleteSemester_semesters:
  "1 < length (semesters st) \<Longrightarrow>
   semesters (handleDeleteSemester st semId) = filter (\<lambda>s. sem_id s \<noteq> semId) (semesters st)"
  by (simp add: handleDeleteSemester_unfold Let_def)

lemma handleDeleteSemester_subjects:
  "1 < length (semesters st) \<Longrightarrow>
   semesterSubjects (handleDeleteSemester st semId) = AList.delete semId (semesterSubjects st)"
  by (simp add: handleDeleteSemester_unfold Let_def)

lemma handleDeleteSemester_dates:
  "1 < length (semesters st) \<Longrightarrow>
   semesterDates (handleDeleteSemester st semId) = AList.delete semId (semesterDates st)"
  by (simp add: handleDeleteSemester_unfold Let_def)

lemma handleDeleteSemester_other_selected:
  "selectedSemester st \<noteq> semId \<Longrightarrow>
   selectedSemester (handleDeleteSemester st semId) = selectedSemester st"
  by (simp add: handleDeleteSemester_unfold Let_def)

lemma handleDeleteSemester_keeps_one:
  assumes "distinctSemesterIds st" and "semesters st \<noteq> []"
  shows "semesters (handleDeleteSemester st semId) \<noteq> []"
proof (cases "length (semesters st) \<le> 1")
  case True
  with assms(2) show ?thesis by (simp add: handleDeleteSemester_rejected)
next
  case False
  then have "1 < length (semesters st)" by simp
  then show ?thesis
    using assms(1) filter_keeps_one [of "semesters st" semId]
    by (simp add: handleDeleteSemester_semesters distinctSemesterIds_def)
qed

lemma handleDeleteSemester_distinct:
  "distinctSemesterIds st \<Longrightarrow> distinctSemesterIds (handleDeleteSemester st semId)"
  by (simp add: handleDeleteSemester_unfold Let_def distinctSemesterIds_def distinct_map_filter)

lemma handleDeleteSemester_selection:
  assumes long: "1 < length (semesters st)"
    and sel: "selectedSemester st = semId"
    and found: "find (\<lambda>s. sem_id s = semId) (semesters st) = Some d"
    and terms: "list_all (\<lambda>s. 0 \<le> sem_term s) (semesters st)"
  shows "selectedSemester (handleDeleteSemester st semId) =
     (case filter (\<lambda>s. sem_year s = sem_year d \<and> sem_term s = sem_term d)
             (semesters (handleDeleteSemester st semId)) of
        g # _ \<Rightarrow> sem_id g
      | [] \<Rightarrow> lastIdOr0 (semesters (handleDeleteSemester st semId)))"
proof -
  let ?remaining = "filter (\<lambda>s. sem_id s \<noteq> semId) (semesters st)"
  from found have d_in: "d \<in> set (semesters st)"
    by (auto simp: find_Some_iff)
  with terms have d_term: "0 \<le> sem_term d"
    by (simp add: list_all_iff)
  have "filter (\<lambda>s. groupKeyOf s = groupKeyOf d) ?remaining =
      filter (\<lambda>s. sem_year s = sem_year d \<and> sem_term s = sem_term d) ?remaining"
  proof (rule filter_cong [OF refl])
    fix s assume "s \<in> set ?remaining"
    then have "s \<in> set (semesters st)" by simp
    with terms have "0 \<le> sem_term s" by (simp add: list_all_iff)
    then show "(groupKeyOf s = groupKeyOf d) = (sem_year s = sem_year d \<and> sem_term s = sem_term d)"
      using d_term by (rule groupKeyOf_eq_iff)
  qed
  moreover have "semesters (handleDeleteSemester st semId) = ?remaining"
    using long by (rule handleDeleteSemester_semesters)
  moreover have "selectedSemester (handleDeleteSemester st semId) =
      (case filter (\<lambda>s. groupKeyOf s = groupKeyOf d) ?remaining of
         g # _ \<Rightarrow> sem_id g
       | [] \<Rightarrow> lastIdOr0 ?remaining)"
    using long sel found by (simp add: handleDeleteSemester_unfold Let_def)
  ultimately show ?thesis by (simp cong: list.case_cong)
qed

text \<open>
  The delete button of a cohort, which calls the handler once. The deletion is refused,
  with the state unchanged, when the plan has one semester only, so a plan whose
  semesters have distinct ids does not become empty. When the deletion goes through, the
  semester with that id is removed, its entries in the assignment dictionary and in the
  dates dictionary are removed and all other entries are kept, and a selection on another
  semester stays. When the deleted semester was the selected one, the selection moves to
  the first remaining cohort of the same year and term if there is one, else to the last
  remaining semester.
\<close>

theorem handleDeleteSemester_spec:
  "(length (semesters st) \<le> 1 \<longrightarrow> handleDeleteSemester st semId = st) \<and>
   (distinctSemesterIds st \<and> semesters st \<noteq> [] \<longrightarrow>
      semesters (handleDeleteSemester st semId) \<noteq> [] \<and>
      distinctSemesterIds (handleDeleteSemester st semId)) \<and>
   (1 < length (semesters st) \<longrightarrow>
      (let st' = handleDeleteSemester st semId in
         semesters st' = filter (\<lambda>s. sem_id s \<noteq> semId) (semesters st) \<and>
         map_of (semesterSubjects st') semId = None \<and>
         map_of (semesterDates st') semId = None \<and>
         (\<forall>k. k \<noteq> semId \<longrightarrow>
            map_of (semesterSubjects st') k = map_of (semesterSubjects st) k \<and>
            map_of (semesterDates st') k = map_of (semesterDates st) k) \<and>
         subjects st' = subjects st \<and>
         (selectedSemester st \<noteq> semId \<longrightarrow> selectedSemester st' = selectedSemester st) \<and>
         (selectedSemester st = semId \<and> distinctSemesterIds st \<and>
          list_all (\<lambda>s. 0 \<le> sem_term s) (semesters st) \<longrightarrow>
            (\<forall>d. find (\<lambda>s. sem_id s = semId) (semesters st) = Some d \<longrightarrow>
               selectedSemester st' =
                 (case filter (\<lambda>s. sem_year s = sem_year d \<and> sem_term s = sem_term d)
                         (semesters st') of
                    g # _ \<Rightarrow> sem_id g
                  | [] \<Rightarrow> sem_id (last (semesters st')))))))"
proof (intro conjI impI)
  assume "length (semesters st) \<le> 1"
  then show "handleDeleteSemester st semId = st" by (rule handleDeleteSemester_rejected)
next
  assume "distinctSemesterIds st \<and> semesters st \<noteq> []"
  then show "semesters (handleDeleteSemester st semId) \<noteq> []"
    using handleDeleteSemester_keeps_one by blast
next
  assume "distinctSemesterIds st \<and> semesters st \<noteq> []"
  then show "distinctSemesterIds (handleDeleteSemester st semId)"
    using handleDeleteSemester_distinct by blast
next
  assume long: "1 < length (semesters st)"
  show "let st' = handleDeleteSemester st semId in
         semesters st' = filter (\<lambda>s. sem_id s \<noteq> semId) (semesters st) \<and>
         map_of (semesterSubjects st') semId = None \<and>
         map_of (semesterDates st') semId = None \<and>
         (\<forall>k. k \<noteq> semId \<longrightarrow>
            map_of (semesterSubjects st') k = map_of (semesterSubjects st) k \<and>
            map_of (semesterDates st') k = map_of (semesterDates st) k) \<and>
         subjects st' = subjects st \<and>
         (selectedSemester st \<noteq> semId \<longrightarrow> selectedSemester st' = selectedSemester st) \<and>
         (selectedSemester st = semId \<and> distinctSemesterIds st \<and>
          list_all (\<lambda>s. 0 \<le> sem_term s) (semesters st) \<longrightarrow>
            (\<forall>d. find (\<lambda>s. sem_id s = semId) (semesters st) = Some d \<longrightarrow>
               selectedSemester st' =
                 (case filter (\<lambda>s. sem_year s = sem_year d \<and> sem_term s = sem_term d)
                         (semesters st') of
                    g # _ \<Rightarrow> sem_id g
                  | [] \<Rightarrow> sem_id (last (semesters st')))))"
    unfolding Let_def
  proof (intro conjI allI impI)
    show "semesters (handleDeleteSemester st semId) = filter (\<lambda>s. sem_id s \<noteq> semId) (semesters st)"
      using long by (rule handleDeleteSemester_semesters)
  next
    show "map_of (semesterSubjects (handleDeleteSemester st semId)) semId = None"
      using long by (simp add: handleDeleteSemester_subjects delete_conv')
  next
    show "map_of (semesterDates (handleDeleteSemester st semId)) semId = None"
      using long by (simp add: handleDeleteSemester_dates delete_conv')
  next
    fix k assume "k \<noteq> semId"
    then show "map_of (semesterSubjects (handleDeleteSemester st semId)) k =
        map_of (semesterSubjects st) k"
      using long by (simp add: handleDeleteSemester_subjects delete_conv')
  next
    fix k assume "k \<noteq> semId"
    then show "map_of (semesterDates (handleDeleteSemester st semId)) k =
        map_of (semesterDates st) k"
      using long by (simp add: handleDeleteSemester_dates delete_conv')
  next
    show "subjects (handleDeleteSemester st semId) = subjects st"
      by (simp add: handleDeleteSemester_unfold Let_def)
  next
    assume "selectedSemester st \<noteq> semId"
    then show "selectedSemester (handleDeleteSemester st semId) = selectedSemester st"
      by (rule handleDeleteSemester_other_selected)
  next
    fix d
    assume h: "selectedSemester st = semId \<and> distinctSemesterIds st \<and>
        list_all (\<lambda>s. 0 \<le> sem_term s) (semesters st)"
      and found: "find (\<lambda>s. sem_id s = semId) (semesters st) = Some d"
    from long have "semesters st \<noteq> []" by auto
    with h have ne: "semesters (handleDeleteSemester st semId) \<noteq> []"
      using handleDeleteSemester_keeps_one [of st semId] by blast
    have "selectedSemester (handleDeleteSemester st semId) =
     (case filter (\<lambda>s. sem_year s = sem_year d \<and> sem_term s = sem_term d)
             (semesters (handleDeleteSemester st semId)) of
        g # _ \<Rightarrow> sem_id g
      | [] \<Rightarrow> lastIdOr0 (semesters (handleDeleteSemester st semId)))"
      using long h found by (intro handleDeleteSemester_selection) simp_all
    with ne show "selectedSemester (handleDeleteSemester st semId) =
        (case filter (\<lambda>s. sem_year s = sem_year d \<and> sem_term s = sem_term d)
                (semesters (handleDeleteSemester st semId)) of
           g # _ \<Rightarrow> sem_id g
         | [] \<Rightarrow> sem_id (last (semesters (handleDeleteSemester st semId))))"
      by (simp add: lastIdOr0_def cong: list.case_cong)
  qed
qed

theorem handleDeleteSemester_spec_witness:
  "length (semesters singlePlan) \<le> 1 \<and> handleDeleteSemester singlePlan 0 = singlePlan \<and>
   1 < length (semesters cohortPlan) \<and> distinctSemesterIds cohortPlan \<and>
   list_all (\<lambda>s. 0 \<le> sem_term s) (semesters cohortPlan) \<and> selectedSemester cohortPlan = 0 \<and>
   map sem_id (semesters (handleDeleteSemester cohortPlan 0)) = [1, 2] \<and>
   map_of (semesterSubjects (handleDeleteSemester cohortPlan 0)) 0 = None \<and>
   selectedSemester (handleDeleteSemester cohortPlan 0) = 2 \<and>
   selectedSemester (handleDeleteSemester samplePlan 0) = 1"
proof -
  have single: "length (semesters singlePlan) \<le> 1"
    by (simp add: singlePlan_def)
  have rejected: "handleDeleteSemester singlePlan 0 = singlePlan"
    by (rule handleDeleteSemester_spec [of singlePlan 0, THEN conjunct1, THEN mp, OF single])
  have long: "1 < length (semesters cohortPlan)"
    by (simp add: cohortPlan_def INITIAL_SEMESTERS_def)
  have dist: "distinctSemesterIds cohortPlan"
    by (simp add: distinctSemesterIds_def cohortPlan_def INITIAL_SEMESTERS_def)
  have terms: "list_all (\<lambda>s. 0 \<le> sem_term s) (semesters cohortPlan)"
    by (simp add: cohortPlan_def INITIAL_SEMESTERS_def)
  have sel0: "selectedSemester cohortPlan = 0"
    by (simp add: cohortPlan_def samplePlan_def)
  have found: "find (\<lambda>s. sem_id s = 0) (semesters cohortPlan) = Some (hd INITIAL_SEMESTERS)"
    by (simp add: cohortPlan_def INITIAL_SEMESTERS_def)
  note body = handleDeleteSemester_spec [of cohortPlan 0, unfolded Let_def,
      THEN conjunct2, THEN conjunct2, THEN mp, OF long]
  note sems = body [THEN conjunct1]
  note gone = body [THEN conjunct2, THEN conjunct1]
  note moved = body [THEN conjunct2, THEN conjunct2, THEN conjunct2, THEN conjunct2,
      THEN conjunct2, THEN conjunct2, THEN mp, OF conjI [OF sel0 conjI [OF dist terms]],
      THEN spec, THEN mp, OF found]
  have ids: "map sem_id (semesters (handleDeleteSemester cohortPlan 0)) = [1, 2]"
    unfolding sems by (simp add: cohortPlan_def INITIAL_SEMESTERS_def)
  have sel2: "selectedSemester (handleDeleteSemester cohortPlan 0) = 2"
    unfolding moved sems by (simp add: cohortPlan_def INITIAL_SEMESTERS_def)
  have long': "1 < length (semesters samplePlan)"
    by (simp add: samplePlan_def INITIAL_SEMESTERS_def)
  have dist': "distinctSemesterIds samplePlan"
    by (simp add: distinctSemesterIds_def samplePlan_def INITIAL_SEMESTERS_def)
  have terms': "list_all (\<lambda>s. 0 \<le> sem_term s) (semesters samplePlan)"
    by (simp add: samplePlan_def INITIAL_SEMESTERS_def)
  have sel0': "selectedSemester samplePlan = 0"
    by (simp add: samplePlan_def)
  have found': "find (\<lambda>s. sem_id s = 0) (semesters samplePlan) = Some (hd INITIAL_SEMESTERS)"
    by (simp add: samplePlan_def INITIAL_SEMESTERS_def)
  note body' = handleDeleteSemester_spec [of samplePlan 0, unfolded Let_def,
      THEN conjunct2, THEN conjunct2, THEN mp, OF long']
  note sems' = body' [THEN conjunct1]
  note moved' = body' [THEN conjunct2, THEN conjunct2, THEN conjunct2, THEN conjunct2,
      THEN conjunct2, THEN conjunct2, THEN mp, OF conjI [OF sel0' conjI [OF dist' terms']],
      THEN spec, THEN mp, OF found']
  have sel1: "selectedSemester (handleDeleteSemester samplePlan 0) = 1"
    unfolding moved' sems' by (simp add: samplePlan_def INITIAL_SEMESTERS_def)
  from single rejected long dist terms sel0 ids gone sel2 sel1 show ?thesis
    by (intro conjI)
qed


section \<open>Deleting a group\<close>

lemma foldl_applyUpdate_snoc:
  "foldl applyUpdate st (us @ [u]) = applyUpdate (foldl applyUpdate st us) u"
  by simp

lemma applyUpdate_semesters:
  "semesters (applyUpdate st u) = (case u of SetSemesters v \<Rightarrow> v | _ \<Rightarrow> semesters st)"
  by (cases u) simp_all

lemma foldl_applyUpdate_semesters:
  "semesters (foldl applyUpdate st us) = semesters st \<or>
   (\<exists>v. SetSemesters v \<in> set us \<and> semesters (foldl applyUpdate st us) = v)"
proof (induction us rule: rev_induct)
  case Nil
  then show ?case by simp
next
  case (snoc u us)
  then show ?case
    by (cases u) (auto simp: applyUpdate_semesters)
qed

lemma deleteSemesterUpdates_semesters:
  "SetSemesters v \<in> set (deleteSemesterUpdates st k) \<Longrightarrow>
   v = filter (\<lambda>s. sem_id s \<noteq> k) (semesters st)"
  by (auto simp: deleteSemesterUpdates_def Let_def split: if_splits)

lemma handleDeleteGroup_semesters:
  "semesters (handleDeleteGroup st key) = semesters st \<or>
   (\<exists>k. semesters (handleDeleteGroup st key) = filter (\<lambda>s. sem_id s \<noteq> k) (semesters st))"
proof -
  let ?us = "concat (map (\<lambda>s. deleteSemesterUpdates st (sem_id s))
      (filter (\<lambda>s. groupKeyOf s = key) (semesters st)))"
  from foldl_applyUpdate_semesters [of st ?us]
  have "semesters (foldl applyUpdate st ?us) = semesters st \<or>
      (\<exists>k. semesters (foldl applyUpdate st ?us) = filter (\<lambda>s. sem_id s \<noteq> k) (semesters st))"
    by (auto dest: deleteSemesterUpdates_semesters)
  then show ?thesis
    by (simp add: handleDeleteGroup_def Let_def)
qed

text \<open>
  Claim C8. A deletion that goes through is to remove the semester, with its entries in
  the two dictionaries, and to move a selection that was on it to another cohort of the
  same group if one remains, else to the last remaining semester. The delete button of a
  group tab breaks this. Take the plan with semester 0 (first term of 2025, cohort 1),
  semester 1 (second term) and semester 2 (first term, cohort 2), semester 0 selected,
  and delete the group of the first term. Every call sets the semester list from the
  list of the render, so the list of the last call stands: semester 0 is still in the
  plan, while its entries in both dictionaries are gone, and the selection is on
  semester 2, which is no longer in the plan. The same two deletions in two events, each
  on the state the one before left, remove both semesters and select semester 1.
\<close>

theorem handleDeleteGroup_keeps_semester:
  "map sem_id (semesters cohortPlan) = [0, 1, 2] \<and>
   selectedSemester cohortPlan = 0 \<and>
   map sem_id (filter (\<lambda>s. groupKeyOf s = sampleGroupKey) (semesters cohortPlan)) = [0, 2] \<and>
   map sem_id (semesters (handleDeleteGroup cohortPlan sampleGroupKey)) = [0, 1] \<and>
   semesterSubjects (handleDeleteGroup cohortPlan sampleGroupKey) = [(1, [2])] \<and>
   semesterDates (handleDeleteGroup cohortPlan sampleGroupKey) = [] \<and>
   selectedSemester (handleDeleteGroup cohortPlan sampleGroupKey) = 2 \<and>
   find (\<lambda>s. sem_id s = 2) (semesters (handleDeleteGroup cohortPlan sampleGroupKey)) = None \<and>
   map sem_id (semesters (handleDeleteSemester (handleDeleteSemester cohortPlan 0) 2)) = [1] \<and>
   selectedSemester (handleDeleteSemester (handleDeleteSemester cohortPlan 0) 2) = 1"
  by (simp add: handleDeleteGroup_def handleDeleteSemester_def deleteSemesterUpdates_def
      cohortPlan_def samplePlan_def sampleGroupKey_def INITIAL_SEMESTERS_def groupKeyOf_def
      numToString_def digitsOf.simps lastIdOr0_def AList.delete_eq Let_def)


section \<open>Capacity of terms and years\<close>

lemmas cap_defs = MAX_PER_SEMESTER_def MAX_PER_YEAR_def

lemma subjectsOf_update:
  "subjectsOf (AList.update k v m) k' = (if k' = k then v else subjectsOf m k')"
  by (simp add: subjectsOf_def update_conv')

lemma countSubjects_Nil: "countSubjects m [] = 0"
  by (simp add: countSubjects_def)

lemma countSubjects_Cons:
  "countSubjects m (s # sems) = length (subjectsOf m (sem_id s)) + countSubjects m sems"
  by (simp add: countSubjects_def)

lemma countSubjects_update_other:
  assumes "k \<notin> sem_id ` set sems"
  shows "countSubjects (AList.update k v m) sems = countSubjects m sems"
  using assms by (induction sems) (auto simp: countSubjects_Nil countSubjects_Cons subjectsOf_update)

lemma countSubjects_update_filter:
  assumes "distinct (map sem_id sems)" and "c \<in> set sems"
  shows "countSubjects (AList.update (sem_id c) (subjectsOf m (sem_id c) @ [x]) m) (filter P sems) =
         countSubjects m (filter P sems) + (if P c then 1 else 0)"
  using assms
proof (induction sems)
  case Nil
  then show ?case by simp
next
  case (Cons s rest)
  let ?m' = "AList.update (sem_id c) (subjectsOf m (sem_id c) @ [x]) m"
  show ?case
  proof (cases "c = s")
    case True
    with Cons.prems have "sem_id c \<notin> sem_id ` set (filter P rest)" by auto
    then have "countSubjects ?m' (filter P rest) = countSubjects m (filter P rest)"
      by (rule countSubjects_update_other)
    with True show ?thesis
      by (simp add: countSubjects_Cons subjectsOf_update)
  next
    case False
    with Cons.prems have "c \<in> set rest" and "sem_id s \<noteq> sem_id c" and "distinct (map sem_id rest)"
      by auto
    with Cons.IH show ?thesis
      by (simp add: countSubjects_Cons subjectsOf_update)
  qed
qed


lemma countSubjects_mono_filter:
  assumes "\<And>s. s \<in> set sems \<Longrightarrow> P s \<Longrightarrow> Q s"
  shows "countSubjects m (filter P sems) \<le> countSubjects m (filter Q sems)"
  using assms
proof (induction sems)
  case Nil
  then show ?case by simp
next
  case (Cons s rest)
  have "countSubjects m (filter P rest) \<le> countSubjects m (filter Q rest)"
    by (rule Cons.IH) (simp add: Cons.prems)
  moreover have "P s \<Longrightarrow> Q s"
    by (rule Cons.prems) simp_all
  ultimately show ?case
    by (cases "P s"; cases "Q s") (simp_all add: countSubjects_Cons)
qed

lemma halfYear_le_group:
  "halfYearCount st (sem_year c) (sem_term c) \<le>
   countSubjects (semesterSubjects st) (filter (\<lambda>s. groupKeyOf s = groupKeyOf c) (semesters st))"
  unfolding halfYearCount_def
proof (rule countSubjects_mono_filter)
  fix s :: Semester
  assume "sem_year s = sem_year c \<and> sem_term s = sem_term c"
  then show "groupKeyOf s = groupKeyOf c" by (simp add: groupKeyOf_def)
qed

text \<open>The two outcomes of a click: nothing changes, or one id is appended under the caps.\<close>

lemma handleSubjectClick_cases:
  "fst (handleSubjectClick st x) = st \<or>
   (\<not> isSubjectUsed st x \<and>
    fst (handleSubjectClick st x) =
      st\<lparr> semesterSubjects :=
            AList.update (selectedSemester st)
              (subjectsOf (semesterSubjects st) (selectedSemester st) @ [x]) (semesterSubjects st) \<rparr> \<and>
    (\<forall>c. find (\<lambda>s. sem_id s = selectedSemester st) (semesters st) = Some c \<longrightarrow>
       countSubjects (semesterSubjects st) (filter (\<lambda>s. groupKeyOf s = groupKeyOf c) (semesters st)) < 8 \<and>
       getYearSubjectCount st (sem_year c) < 14))"
proof (cases "isSubjectUsed st x")
  case True
  then show ?thesis by (simp add: handleSubjectClick_def)
next
  case unused: False
  let ?cur = "find (\<lambda>s. sem_id s = selectedSemester st) (semesters st)"
  let ?g = "countSubjects (semesterSubjects st)
      (filter (\<lambda>s. groupKeyOf s = (case ?cur of None \<Rightarrow> [] | Some c \<Rightarrow> groupKeyOf c)) (semesters st))"
  let ?y = "case ?cur of None \<Rightarrow> 0 | Some c \<Rightarrow> getYearSubjectCount st (sem_year c)"
  show ?thesis
  proof (cases "8 \<le> ?g \<or> 14 \<le> ?y")
    case True
    then have "fst (handleSubjectClick st x) = st"
      unfolding handleSubjectClick_def Let_def cap_defs by auto
    then show ?thesis by simp
  next
    case False
    then have g: "\<not> 8 \<le> ?g" and y: "\<not> 14 \<le> ?y" by simp_all
    have "fst (handleSubjectClick st x) =
      st\<lparr> semesterSubjects :=
            AList.update (selectedSemester st)
              (subjectsOf (semesterSubjects st) (selectedSemester st) @ [x]) (semesterSubjects st) \<rparr>"
      unfolding handleSubjectClick_def Let_def cap_defs
      using unused g y by simp
    moreover have "\<forall>c. ?cur = Some c \<longrightarrow>
       countSubjects (semesterSubjects st) (filter (\<lambda>s. groupKeyOf s = groupKeyOf c) (semesters st)) < 8 \<and>
       getYearSubjectCount st (sem_year c) < 14"
    proof (intro allI impI)
      fix c assume c: "?cur = Some c"
      from g y show "countSubjects (semesterSubjects st)
          (filter (\<lambda>s. groupKeyOf s = groupKeyOf c) (semesters st)) < 8 \<and>
         getYearSubjectCount st (sem_year c) < 14"
        unfolding c by simp
    qed
    ultimately show ?thesis using unused by blast
  qed
qed

lemma handleSubjectClick_semesters:
  "semesters (fst (handleSubjectClick st x)) = semesters st"
  by (simp add: handleSubjectClick_def Let_def)

lemma handleSubjectClick_withinCaps:
  assumes dist: "distinctSemesterIds st" and caps: "withinCaps st"
  shows "withinCaps (fst (handleSubjectClick st x))"
proof -
  let ?k = "selectedSemester st"
  let ?m = "semesterSubjects st"
  let ?m' = "AList.update ?k (subjectsOf ?m ?k @ [x]) ?m"
  let ?st' = "st\<lparr> semesterSubjects := ?m' \<rparr>"
  from handleSubjectClick_cases [of st x] show ?thesis
  proof
    assume "fst (handleSubjectClick st x) = st"
    with caps show ?thesis by simp
  next
    assume upd: "\<not> isSubjectUsed st x \<and> fst (handleSubjectClick st x) = ?st' \<and>
      (\<forall>c. find (\<lambda>s. sem_id s = ?k) (semesters st) = Some c \<longrightarrow>
         countSubjects ?m (filter (\<lambda>s. groupKeyOf s = groupKeyOf c) (semesters st)) < 8 \<and>
         getYearSubjectCount st (sem_year c) < 14)"
    have "withinCaps ?st'"
    proof (cases "find (\<lambda>s. sem_id s = ?k) (semesters st)")
      case None
      then have nok: "?k \<notin> sem_id ` set (semesters st)"
        by (auto simp: find_None_iff)
      have same: "countSubjects ?m' (filter P (semesters st)) = countSubjects ?m (filter P (semesters st))" for P
        by (rule countSubjects_update_other) (use nok in auto)
      show ?thesis
        using caps by (simp add: withinCaps_def halfYearCount_def getYearSubjectCount_def same)
    next
      case (Some c)
      then have c_in: "c \<in> set (semesters st)" and c_id: "sem_id c = ?k"
        by (auto simp: find_Some_iff)
      from upd Some have g: "countSubjects ?m (filter (\<lambda>s. groupKeyOf s = groupKeyOf c) (semesters st)) < 8"
        and y: "getYearSubjectCount st (sem_year c) < 14"
        by auto
      from g halfYear_le_group [of st c] have h: "halfYearCount st (sem_year c) (sem_term c) < 8"
        by simp
      have plus: "countSubjects ?m' (filter P (semesters st)) =
          countSubjects ?m (filter P (semesters st)) + (if P c then 1 else 0)" for P
        using countSubjects_update_filter [OF dist [unfolded distinctSemesterIds_def] c_in, of ?m x P]
        by (simp add: c_id)
      show ?thesis
        unfolding withinCaps_def list_all_iff
      proof
        fix s assume "s \<in> set (semesters ?st')"
        then have s_in: "s \<in> set (semesters st)" by simp
        with caps have old: "halfYearCount st (sem_year s) (sem_term s) \<le> 8"
          "getYearSubjectCount st (sem_year s) \<le> 14"
          by (auto simp: withinCaps_def list_all_iff cap_defs)
        have "halfYearCount ?st' (sem_year s) (sem_term s) \<le> 8"
        proof (cases "sem_year c = sem_year s \<and> sem_term c = sem_term s")
          case True
          with h show ?thesis by (simp add: halfYearCount_def plus)
        next
          case False
          with old(1) show ?thesis by (auto simp: halfYearCount_def plus)
        qed
        moreover have "getYearSubjectCount ?st' (sem_year s) \<le> 14"
        proof (cases "sem_year c = sem_year s")
          case True
          with y show ?thesis by (simp add: getYearSubjectCount_def plus)
        next
          case False
          with old(2) show ?thesis by (simp add: getYearSubjectCount_def plus)
        qed
        ultimately show "halfYearCount ?st' (sem_year s) (sem_term s) \<le> MAX_PER_SEMESTER \<and>
            getYearSubjectCount ?st' (sem_year s) \<le> MAX_PER_YEAR"
          by (simp add: cap_defs)
      qed
    qed
    with upd show ?thesis by simp
  qed
qed

lemma withinCaps_all:
  "withinCaps st \<longleftrightarrow> (\<forall>y t. halfYearCount st y t \<le> 8 \<and> getYearSubjectCount st y \<le> 14)"
proof
  assume caps: "withinCaps st"
  show "\<forall>y t. halfYearCount st y t \<le> 8 \<and> getYearSubjectCount st y \<le> 14"
  proof (intro allI conjI)
    fix y t
    show "halfYearCount st y t \<le> 8"
    proof (cases "filter (\<lambda>s. sem_year s = y \<and> sem_term s = t) (semesters st)")
      case Nil
      then show ?thesis by (simp add: halfYearCount_def countSubjects_Nil)
    next
      case (Cons s rest)
      then have "s \<in> set (filter (\<lambda>s. sem_year s = y \<and> sem_term s = t) (semesters st))"
        by simp
      then have "s \<in> set (semesters st)" "sem_year s = y" "sem_term s = t" by auto
      with caps show ?thesis by (auto simp: withinCaps_def list_all_iff cap_defs)
    qed
    show "getYearSubjectCount st y \<le> 14"
    proof (cases "filter (\<lambda>s. sem_year s = y) (semesters st)")
      case Nil
      then show ?thesis by (simp add: getYearSubjectCount_def countSubjects_Nil)
    next
      case (Cons s rest)
      then have "s \<in> set (filter (\<lambda>s. sem_year s = y) (semesters st))"
        by simp
      then have "s \<in> set (semesters st)" "sem_year s = y" by auto
      with caps show ?thesis by (auto simp: withinCaps_def list_all_iff cap_defs)
    qed
  qed
next
  assume "\<forall>y t. halfYearCount st y t \<le> 8 \<and> getYearSubjectCount st y \<le> 14"
  then show "withinCaps st" by (simp add: withinCaps_def list_all_iff cap_defs)
qed

lemma run_assign_withinCaps:
  assumes "list_all isAssignOp ops" and "distinctSemesterIds st" and "withinCaps st"
  shows "\<forall>st' \<in> set (run ops st). withinCaps st'"
  using assms
proof (induction ops arbitrary: st)
  case Nil
  then show ?case by simp
next
  case (Cons a ops)
  from Cons.prems(1) have rest: "list_all isAssignOp ops" and a: "isAssignOp a" by simp_all
  show ?case
  proof (cases a)
    case (SelectSemester k)
    have "distinctSemesterIds (st\<lparr> selectedSemester := k \<rparr>)"
      using Cons.prems(2) by (simp add: distinctSemesterIds_def)
    moreover have "withinCaps (st\<lparr> selectedSemester := k \<rparr>)"
      using Cons.prems(3)
      by (simp add: withinCaps_def halfYearCount_def getYearSubjectCount_def)
    ultimately have "\<forall>st' \<in> set (run ops (st\<lparr> selectedSemester := k \<rparr>)). withinCaps st'"
      using Cons.IH rest by blast
    with SelectSemester Cons.prems(3) show ?thesis by simp
  next
    case (SubjectClick x)
    have "distinctSemesterIds (fst (handleSubjectClick st x))"
      using Cons.prems(2) by (simp add: distinctSemesterIds_def handleSubjectClick_semesters)
    moreover have "withinCaps (fst (handleSubjectClick st x))"
      using Cons.prems(2,3) by (rule handleSubjectClick_withinCaps)
    ultimately have "\<forall>st' \<in> set (run ops (fst (handleSubjectClick st x))). withinCaps st'"
      using Cons.IH rest by blast
    with SubjectClick Cons.prems(3) show ?thesis by simp
  qed (use a in simp_all)
qed

lemma handleSubjectClick_rejected:
  assumes "find (\<lambda>s. sem_id s = selectedSemester st) (semesters st) = Some c"
    and "8 \<le> halfYearCount st (sem_year c) (sem_term c) \<or> 14 \<le> getYearSubjectCount st (sem_year c)"
  shows "fst (handleSubjectClick st x) = st"
proof -
  from assms(2) halfYear_le_group [of st c]
  have "8 \<le> countSubjects (semesterSubjects st)
          (filter (\<lambda>s. groupKeyOf s = groupKeyOf c) (semesters st)) \<or>
        14 \<le> getYearSubjectCount st (sem_year c)"
    by linarith
  with assms(1) show ?thesis
    by (auto simp: handleSubjectClick_def Let_def cap_defs)
qed

text \<open>
  Claim C3. In a plan whose semesters have distinct ids and whose groups and years are
  within the caps, every state that a sequence of cohort selections and subject clicks
  passes through has at most 8 subjects in every half-year group, summed over its cohorts,
  and at most 14 in every year. A click that finds the group of the selected semester at
  8 or its year at 14 leaves the state, the assignment dictionary included, as it was.
\<close>

theorem assignment_caps:
  "(distinctSemesterIds st \<and> withinCaps st \<and> list_all isAssignOp ops \<longrightarrow>
      list_all (\<lambda>st'. \<forall>y t. halfYearCount st' y t \<le> 8 \<and> getYearSubjectCount st' y \<le> 14)
        (run ops st)) \<and>
   (\<forall>c. find (\<lambda>s. sem_id s = selectedSemester st) (semesters st) = Some c \<and>
        (8 \<le> halfYearCount st (sem_year c) (sem_term c) \<or>
         14 \<le> getYearSubjectCount st (sem_year c)) \<longrightarrow>
        fst (handleSubjectClick st subjectId) = st \<and>
        semesterSubjects (fst (handleSubjectClick st subjectId)) = semesterSubjects st)"
proof (intro conjI allI impI)
  assume "distinctSemesterIds st \<and> withinCaps st \<and> list_all isAssignOp ops"
  then have "\<forall>st' \<in> set (run ops st). withinCaps st'"
    using run_assign_withinCaps by blast
  then show "list_all (\<lambda>st'. \<forall>y t. halfYearCount st' y t \<le> 8 \<and> getYearSubjectCount st' y \<le> 14)
      (run ops st)"
    by (simp add: list_all_iff withinCaps_all)
next
  fix c
  assume h: "find (\<lambda>s. sem_id s = selectedSemester st) (semesters st) = Some c \<and>
        (8 \<le> halfYearCount st (sem_year c) (sem_term c) \<or>
         14 \<le> getYearSubjectCount st (sem_year c))"
  then show "fst (handleSubjectClick st subjectId) = st"
    using handleSubjectClick_rejected by blast
  then show "semesterSubjects (fst (handleSubjectClick st subjectId)) = semesterSubjects st"
    by simp
qed

lemmas click_eval =
  handleSubjectClick_def isSubjectUsed_def assignedIds_def subjectsOf_def countSubjects_def
  getYearSubjectCount_def halfYearCount_def groupKeyOf_def numToString_def digitsOf.simps
  Let_def cap_defs INITIAL_SEMESTERS_def

theorem assignment_caps_witness:
  "distinctSemesterIds fullPlan \<and> withinCaps fullPlan \<and>
   list_all isAssignOp [SubjectClick 99, SelectSemester 1, SubjectClick 99] \<and>
   list_all (\<lambda>st'. \<forall>y t. halfYearCount st' y t \<le> 8 \<and> getYearSubjectCount st' y \<le> 14)
     (run [SubjectClick 99, SelectSemester 1, SubjectClick 99] fullPlan) \<and>
   find (\<lambda>s. sem_id s = selectedSemester fullPlan) (semesters fullPlan) = Some (hd INITIAL_SEMESTERS) \<and>
   8 \<le> halfYearCount fullPlan (sem_year (hd INITIAL_SEMESTERS)) (sem_term (hd INITIAL_SEMESTERS)) \<and>
   semesterSubjects (fst (handleSubjectClick fullPlan 99)) = semesterSubjects fullPlan \<and>
   map semesterSubjects (run [SubjectClick 5] samplePlan) = [[(0, [1]), (1, [2])], [(0, [1, 5]), (1, [2])]]"
proof -
  have dist: "distinctSemesterIds fullPlan"
    by (simp add: distinctSemesterIds_def fullPlan_def samplePlan_def INITIAL_SEMESTERS_def)
  have caps: "withinCaps fullPlan"
    by (simp add: withinCaps_def fullPlan_def samplePlan_def click_eval)
  have ops: "list_all isAssignOp [SubjectClick 99, SelectSemester 1, SubjectClick 99]"
    by simp
  have found: "find (\<lambda>s. sem_id s = selectedSemester fullPlan) (semesters fullPlan) =
      Some (hd INITIAL_SEMESTERS)"
    by (simp add: fullPlan_def samplePlan_def INITIAL_SEMESTERS_def)
  have full: "8 \<le> halfYearCount fullPlan (sem_year (hd INITIAL_SEMESTERS)) (sem_term (hd INITIAL_SEMESTERS))"
    by (simp add: fullPlan_def samplePlan_def click_eval)
  note t = assignment_caps [of fullPlan "[SubjectClick 99, SelectSemester 1, SubjectClick 99]" 99]
  note bounded = t [THEN conjunct1, THEN mp, OF conjI [OF dist conjI [OF caps ops]]]
  note kept = t [THEN conjunct2, THEN spec, THEN mp, OF conjI [OF found disjI1 [OF full]], THEN conjunct2]
  have sample: "map semesterSubjects (run [SubjectClick 5] samplePlan) =
      [[(0, [1]), (1, [2])], [(0, [1, 5]), (1, [2])]]"
    by (simp add: samplePlan_def click_eval)
  from dist caps ops bounded found full kept sample show ?thesis
    by (intro conjI)
qed


section \<open>Global uniqueness of assigned subjects\<close>

lemma subjectsOf_Cons:
  "subjectsOf (p # ps) k = (if fst p = k then snd p else subjectsOf ps k)"
  by (cases p) (simp add: subjectsOf_def)

lemma subjectsOf_Nil: "subjectsOf [] k = []"
  by (simp add: subjectsOf_def)

lemma holders_Nil: "holders [] x = 0"
  by (simp add: holders_def)

lemma holders_Cons: "holders (e # m) x = (if x \<in> set (snd e) then 1 else 0) + holders m x"
  by (simp add: holders_def)

lemma holders_zero: "x \<notin> set (concat (map snd m)) \<Longrightarrow> holders m x = 0"
  by (induction m) (simp_all add: holders_Nil holders_Cons)

lemma holders_pos: "(k, l) \<in> set m \<Longrightarrow> x \<in> set l \<Longrightarrow> 1 \<le> holders m x"
  by (induction m) (auto simp: holders_Cons)

lemma holders_two:
  assumes "(k1, l1) \<in> set m" and "(k2, l2) \<in> set m" and "k1 \<noteq> k2"
    and "x \<in> set l1" and "x \<in> set l2"
  shows "2 \<le> holders m x"
  using assms
proof (induction m)
  case Nil
  then show ?case by simp
next
  case (Cons p ps)
  show ?case
  proof (cases "p = (k1, l1)")
    case True
    with Cons.prems have "(k2, l2) \<in> set ps" by auto
    then have "1 \<le> holders ps x" using Cons.prems(5) by (rule holders_pos)
    with True Cons.prems(4) show ?thesis by (simp add: holders_Cons)
  next
    case False
    note not1 = this
    show ?thesis
    proof (cases "p = (k2, l2)")
      case True
      with Cons.prems not1 have "(k1, l1) \<in> set ps" by auto
      then have "1 \<le> holders ps x" using Cons.prems(4) by (rule holders_pos)
      with True Cons.prems(5) show ?thesis by (simp add: holders_Cons)
    next
      case False
      with not1 Cons.prems have "(k1, l1) \<in> set ps" "(k2, l2) \<in> set ps" by auto
      then have "2 \<le> holders ps x"
        using Cons.prems(3,4,5) by (intro Cons.IH)
      then show ?thesis by (simp add: holders_Cons)
    qed
  qed
qed

text \<open>With at most one holder, two lists that hold a subject are the list of one key.\<close>

lemma one_holder_one_key:
  assumes "holders m x \<le> 1" and "x \<in> set (subjectsOf m k1)" and "x \<in> set (subjectsOf m k2)"
  shows "k1 = k2"
proof (rule ccontr)
  assume ne: "k1 \<noteq> k2"
  from assms(2) obtain l1 where l1: "map_of m k1 = Some l1" "x \<in> set l1"
    by (cases "map_of m k1") (simp_all add: subjectsOf_def)
  from assms(3) obtain l2 where l2: "map_of m k2 = Some l2" "x \<in> set l2"
    by (cases "map_of m k2") (simp_all add: subjectsOf_def)
  from l1(1) l2(1) have "(k1, l1) \<in> set m" "(k2, l2) \<in> set m"
    by (auto dest: map_of_SomeD)
  then have "2 \<le> holders m x"
    using ne l1(2) l2(2) by (rule holders_two)
  with assms(1) show False by simp
qed

lemma holders_update_append_other:
  "x' \<noteq> x \<Longrightarrow> holders (AList.update k (subjectsOf m k @ [x]) m) x' = holders m x'"
  by (induction m) (auto simp: holders_Nil holders_Cons subjectsOf_Cons subjectsOf_Nil)

lemma holders_update_append_new:
  "x \<notin> set (concat (map snd m)) \<Longrightarrow> holders (AList.update k (subjectsOf m k @ [x]) m) x = 1"
proof (induction m)
  case Nil
  then show ?case by (simp add: holders_Nil holders_Cons subjectsOf_Nil)
next
  case (Cons p ps)
  then have rest: "x \<notin> set (concat (map snd ps))" and head: "x \<notin> set (snd p)" by auto
  show ?case
  proof (cases "fst p = k")
    case True
    with rest head show ?thesis
      by (simp add: holders_Cons subjectsOf_Cons holders_zero)
  next
    case False
    with Cons.IH [OF rest] head show ?thesis
      by (simp add: holders_Cons subjectsOf_Cons)
  qed
qed

lemma holders_update_filter:
  "holders (AList.update k (filter Q (subjectsOf m k)) m) x' \<le> holders m x'"
  by (induction m) (auto simp: holders_Nil holders_Cons subjectsOf_Cons subjectsOf_Nil)

lemma holders_filter: "holders (filter P m) x' \<le> holders m x'"
  by (induction m) (auto simp: holders_Nil holders_Cons)

lemma holders_delete: "holders (AList.delete k m) x' \<le> holders m x'"
  unfolding AList.delete_eq by (rule holders_filter)

lemma holders_map_filter:
  "holders (map (\<lambda>(k, v). (k, filter Q v)) m) x' \<le> holders m x'"
  by (induction m) (auto simp: holders_Nil holders_Cons)

lemma holders_removeFromFirst:
  "holders (removeFromFirst sems x m) x' \<le> holders m x'"
  by (induction sems) (simp_all add: holders_update_filter)

lemma distinct_removeFromFirst:
  "distinct (map fst m) \<Longrightarrow> distinct (map fst (removeFromFirst sems x m))"
  by (induction sems) (simp_all add: distinct_update)

lemma uniqueAssignment_iff:
  "uniqueAssignment st \<longleftrightarrow>
   distinct (map fst (semesterSubjects st)) \<and> (\<forall>x. holders (semesterSubjects st) x \<le> 1)"
proof -
  have "holders (semesterSubjects st) x \<le> 1" if "x \<notin> set (assignedIds st)" for x
    using that holders_zero [of x "semesterSubjects st"] by (simp add: assignedIds_def)
  then show ?thesis
    unfolding uniqueAssignment_def list_all_iff by blast
qed

text \<open>Every operation keeps the assignment dictionary unique.\<close>

lemma unique_update:
  assumes "uniqueAssignment st"
    and "distinct (map fst (semesterSubjects st)) \<Longrightarrow> distinct (map fst m')"
    and "\<And>x. holders (semesterSubjects st) x \<le> 1 \<Longrightarrow> holders m' x \<le> 1"
  shows "uniqueAssignment (st\<lparr> semesterSubjects := m' \<rparr>)"
  using assms by (simp add: uniqueAssignment_iff)

lemma handleSubjectClick_unique:
  assumes "uniqueAssignment st"
  shows "uniqueAssignment (fst (handleSubjectClick st x))"
proof -
  let ?k = "selectedSemester st"
  let ?m = "semesterSubjects st"
  let ?m' = "AList.update ?k (subjectsOf ?m ?k @ [x]) ?m"
  from handleSubjectClick_cases [of st x] show ?thesis
  proof
    assume "fst (handleSubjectClick st x) = st"
    with assms show ?thesis by simp
  next
    assume "\<not> isSubjectUsed st x \<and> fst (handleSubjectClick st x) = st\<lparr> semesterSubjects := ?m' \<rparr> \<and>
      (\<forall>c. find (\<lambda>s. sem_id s = ?k) (semesters st) = Some c \<longrightarrow>
         countSubjects ?m (filter (\<lambda>s. groupKeyOf s = groupKeyOf c) (semesters st)) < 8 \<and>
         getYearSubjectCount st (sem_year c) < 14)"
    then have unused: "x \<notin> set (concat (map snd ?m))"
      and eq: "fst (handleSubjectClick st x) = st\<lparr> semesterSubjects := ?m' \<rparr>"
      by (simp_all add: isSubjectUsed_def assignedIds_def)
    have "uniqueAssignment (st\<lparr> semesterSubjects := ?m' \<rparr>)"
    proof (rule unique_update [OF assms])
      show "distinct (map fst ?m) \<Longrightarrow> distinct (map fst ?m')"
        by (rule distinct_update)
    next
      fix x' assume old: "holders ?m x' \<le> 1"
      show "holders ?m' x' \<le> 1"
      proof (cases "x' = x")
        case True
        with unused show ?thesis by (simp add: holders_update_append_new)
      next
        case False
        with old show ?thesis by (simp add: holders_update_append_other)
      qed
    qed
    with eq show ?thesis by simp
  qed
qed

lemma handleRemoveAssigned_unique:
  assumes "uniqueAssignment st"
  shows "uniqueAssignment (handleRemoveAssigned st x)"
  unfolding handleRemoveAssigned_def Let_def
proof (rule unique_update [OF assms])
  fix sems x'
  assume "holders (semesterSubjects st) x' \<le> 1"
  with holders_removeFromFirst [of sems x "semesterSubjects st" x']
  show "holders (removeFromFirst sems x (semesterSubjects st)) x' \<le> 1"
    by linarith
qed (rule distinct_removeFromFirst)

lemma handleDeleteSemester_unique:
  assumes "uniqueAssignment st"
  shows "uniqueAssignment (handleDeleteSemester st k)"
proof (cases "length (semesters st) \<le> 1")
  case True
  with assms show ?thesis by (simp add: handleDeleteSemester_rejected)
next
  case False
  have "uniqueAssignment (st\<lparr> semesterSubjects := AList.delete k (semesterSubjects st) \<rparr>)"
  proof (rule unique_update [OF assms])
    fix x' assume "holders (semesterSubjects st) x' \<le> 1"
    with holders_delete [of k "semesterSubjects st" x']
    show "holders (AList.delete k (semesterSubjects st)) x' \<le> 1" by linarith
  qed (rule distinct_delete)
  then show ?thesis
    using False by (simp add: uniqueAssignment_iff handleDeleteSemester_unfold Let_def)
qed

lemma applyUpdate_unique:
  "uniqueAssignment st \<Longrightarrow> uniqueAssignment (applyUpdate st u)"
proof (cases u)
  case (DropSubjectsKey k)
  assume u: "uniqueAssignment st"
  have "uniqueAssignment (st\<lparr> semesterSubjects := AList.delete k (semesterSubjects st) \<rparr>)"
  proof (rule unique_update [OF u])
    fix x' assume "holders (semesterSubjects st) x' \<le> 1"
    with holders_delete [of k "semesterSubjects st" x']
    show "holders (AList.delete k (semesterSubjects st)) x' \<le> 1" by linarith
  qed (rule distinct_delete)
  with DropSubjectsKey show ?thesis by simp
qed (simp_all add: uniqueAssignment_iff)

lemma foldl_applyUpdate_unique:
  "uniqueAssignment st \<Longrightarrow> uniqueAssignment (foldl applyUpdate st us)"
  by (induction us rule: rev_induct) (simp_all add: applyUpdate_unique)

lemma handleDeleteGroup_unique:
  "uniqueAssignment st \<Longrightarrow> uniqueAssignment (handleDeleteGroup st key)"
  by (simp add: handleDeleteGroup_def Let_def foldl_applyUpdate_unique)

lemma handleDeleteSubject_unique:
  assumes "uniqueAssignment st"
  shows "uniqueAssignment (fst (handleDeleteSubject st x err))"
proof (cases err)
  case (Some msg)
  with assms show ?thesis by (simp add: handleDeleteSubject_def)
next
  case None
  let ?m' = "map (\<lambda>(k, v). (k, filter (\<lambda>sid. sid \<noteq> x) v)) (semesterSubjects st)"
  have "uniqueAssignment (st\<lparr> semesterSubjects := ?m' \<rparr>)"
  proof (rule unique_update [OF assms])
    show "distinct (map fst (semesterSubjects st)) \<Longrightarrow> distinct (map fst ?m')"
      by (simp add: case_prod_unfold comp_def)
  next
    fix x' assume "holders (semesterSubjects st) x' \<le> 1"
    with holders_map_filter [of "\<lambda>sid. sid \<noteq> x" "semesterSubjects st" x']
    show "holders ?m' x' \<le> 1" by linarith
  qed
  then show ?thesis
    using None by (simp add: uniqueAssignment_iff handleDeleteSubject_def)
qed

lemma step_unique:
  assumes "uniqueAssignment st" and "step a st = Some st'"
  shows "uniqueAssignment st'"
proof (cases a)
  case (SubjectClick x)
  with assms handleSubjectClick_unique [of st x] show ?thesis by auto
next
  case (RemoveAssigned x)
  with assms handleRemoveAssigned_unique [of st x] show ?thesis by auto
next
  case (DeleteSemester k)
  with assms handleDeleteSemester_unique [of st k] show ?thesis by auto
next
  case (DeleteSubject x err)
  with assms handleDeleteSubject_unique [of st x err] show ?thesis by auto
next
  case (DeleteGroup key)
  with assms handleDeleteGroup_unique [of st key] show ?thesis by auto
next
  case (SelectSemester k)
  with assms show ?thesis by (auto simp: uniqueAssignment_iff)
next
  case (DateChange k f v)
  with assms show ?thesis by (auto simp: uniqueAssignment_iff handleDateChange_def Let_def)
next
  case (UpdateYear k v)
  with assms show ?thesis by (auto simp: uniqueAssignment_iff handleUpdateSemesterYear_def)
next
  case (UpdateTerm k v)
  with assms show ?thesis by (auto simp: uniqueAssignment_iff handleUpdateSemesterTerm_def)
next
  case (ConfirmAddSemester y t)
  with assms show ?thesis by (auto simp: uniqueAssignment_iff handleConfirmAddSemester_def Let_def)
next
  case AddKisu
  with assms show ?thesis
    by (auto simp: uniqueAssignment_iff handleAddKisu_def Let_def split: option.splits list.splits)
qed

lemma run_unique:
  "uniqueAssignment st \<Longrightarrow> \<forall>st' \<in> set (run ops st). uniqueAssignment st'"
proof (induction ops arbitrary: st)
  case Nil
  then show ?case by simp
next
  case (Cons a ops)
  show ?case
  proof (cases "step a st")
    case None
    with Cons.prems show ?thesis by simp
  next
    case (Some st1)
    from Cons.prems Some have "uniqueAssignment st1" by (rule step_unique)
    then have "\<forall>st' \<in> set (run ops st1). uniqueAssignment st'" by (rule Cons.IH)
    with Some Cons.prems show ?thesis by simp
  qed
qed

lemma handleSubjectClick_used:
  "isSubjectUsed st x \<Longrightarrow> handleSubjectClick st x = (st, None)"
  by (simp add: handleSubjectClick_def)

text \<open>
  Claim C4. From a state in which every subject id is held by at most one assignment
  list, every state that a sequence of plan operations passes through is such a state:
  two lists holding the same subject id are the list of one semester id. A click on a
  subject id that is assigned anywhere changes nothing and shows no message.
\<close>

theorem assignment_unique:
  "(uniqueAssignment st \<longrightarrow>
      list_all (\<lambda>st'. uniqueAssignment st' \<and>
                  (\<forall>x k1 k2. x \<in> set (subjectsOf (semesterSubjects st') k1) \<and>
                             x \<in> set (subjectsOf (semesterSubjects st') k2) \<longrightarrow> k1 = k2))
        (run ops st)) \<and>
   (isSubjectUsed st subjectId \<longrightarrow>
      handleSubjectClick st subjectId = (st, None) \<and>
      semesterSubjects (fst (handleSubjectClick st subjectId)) = semesterSubjects st)"
proof (intro conjI impI)
  assume "uniqueAssignment st"
  then have all: "\<forall>st' \<in> set (run ops st). uniqueAssignment st'"
    by (rule run_unique)
  show "list_all (\<lambda>st'. uniqueAssignment st' \<and>
                  (\<forall>x k1 k2. x \<in> set (subjectsOf (semesterSubjects st') k1) \<and>
                             x \<in> set (subjectsOf (semesterSubjects st') k2) \<longrightarrow> k1 = k2))
        (run ops st)"
    unfolding list_all_iff
  proof (intro ballI conjI allI impI)
    fix st' assume "st' \<in> set (run ops st)"
    with all show u: "uniqueAssignment st'" by blast
    fix x k1 k2
    assume both: "x \<in> set (subjectsOf (semesterSubjects st') k1) \<and>
        x \<in> set (subjectsOf (semesterSubjects st') k2)"
    from u have one: "holders (semesterSubjects st') x \<le> 1"
      by (simp add: uniqueAssignment_iff)
    show "k1 = k2"
      by (rule one_holder_one_key [OF one conjunct1 [OF both] conjunct2 [OF both]])
  qed
next
  assume "isSubjectUsed st subjectId"
  then show "handleSubjectClick st subjectId = (st, None)"
    by (rule handleSubjectClick_used)
  then show "semesterSubjects (fst (handleSubjectClick st subjectId)) = semesterSubjects st"
    by simp
qed

lemma sampleOps_run:
  "map semesterSubjects (run sampleOps samplePlan) =
    [[(0, [1]), (1, [2])], [(0, [1]), (1, [2])], [(0, [1, 5]), (1, [2])],
     [(0, [1, 5]), (1, [2])], [(0, [1, 5]), (1, [2])], [(0, [1, 5]), (1, [])],
     [(0, [5]), (1, [])], [(1, [])]]"
  by (simp add: sampleOps_def samplePlan_def click_eval handleRemoveAssigned_def
      handleDeleteSubject_def handleDeleteSemester_unfold AList.delete_eq)

theorem assignment_unique_witness:
  "uniqueAssignment samplePlan \<and>
   list_all (\<lambda>st'. uniqueAssignment st' \<and>
               (\<forall>x k1 k2. x \<in> set (subjectsOf (semesterSubjects st') k1) \<and>
                          x \<in> set (subjectsOf (semesterSubjects st') k2) \<longrightarrow> k1 = k2))
     (run sampleOps samplePlan) \<and>
   semesterSubjects (last (run sampleOps samplePlan)) = [(1, [])] \<and>
   isSubjectUsed samplePlan 1 \<and>
   handleSubjectClick samplePlan 1 = (samplePlan, None)"
proof -
  have u: "uniqueAssignment samplePlan"
    by (simp add: uniqueAssignment_def samplePlan_def assignedIds_def holders_def)
  have used: "isSubjectUsed samplePlan 1"
    by (simp add: isSubjectUsed_def samplePlan_def assignedIds_def)
  note t = assignment_unique [of samplePlan sampleOps 1]
  note all = t [THEN conjunct1, THEN mp, OF u]
  note noop = t [THEN conjunct2, THEN mp, OF used, THEN conjunct1]
  have "map semesterSubjects (run sampleOps samplePlan) \<noteq> []"
    by (simp add: sampleOps_run)
  then have "semesterSubjects (last (run sampleOps samplePlan)) =
      last (map semesterSubjects (run sampleOps samplePlan))"
    by (simp add: last_map)
  then have final: "semesterSubjects (last (run sampleOps samplePlan)) = [(1, [])]"
    by (simp add: sampleOps_run)
  from u all final used noop show ?thesis
    by (intro conjI)
qed


section \<open>Semester ids stay distinct\<close>

text \<open>
  The theorems on capacity and on deletion assume that no two semesters share an id.
  This holds of every plan the page can reach: the ids of the initial semesters grow
  along the list, loading keeps them growing, and so does every operation.
\<close>

lemma increasingIds_distinct: "increasingIds (semesters st) \<Longrightarrow> distinctSemesterIds st"
  by (simp add: increasingIds_def distinctSemesterIds_def strict_sorted_iff)

lemma increasingIds_initial: "increasingIds INITIAL_SEMESTERS"
  by (simp add: increasingIds_def INITIAL_SEMESTERS_def)

lemma increasing_below_last:
  assumes "sorted_wrt (\<lambda>a b. a < b) xs" and "xs \<noteq> []" and "x \<in> set xs"
  shows "x \<le> (last xs :: int)"
  using assms
proof (induction xs)
  case Nil
  then show ?case by simp
next
  case (Cons y ys)
  show ?case
  proof (cases "ys = []")
    case True
    with Cons.prems show ?thesis by simp
  next
    case False
    then have "last ys \<in> set ys" by simp
    with Cons.prems(1) have "y < last ys" by simp
    moreover have "x \<in> set ys \<Longrightarrow> x \<le> last ys"
      using Cons.IH Cons.prems(1) False by simp
    ultimately show ?thesis using Cons.prems(3) False by auto
  qed
qed

lemma increasingIds_snoc:
  assumes "increasingIds sems" and "\<And>s. s \<in> set sems \<Longrightarrow> sem_id s < sem_id new"
  shows "increasingIds (sems @ [new])"
  using assms by (auto simp: increasingIds_def sorted_wrt_append)

lemma increasingIds_next:
  assumes "increasingIds sems" and "sem_id new = nextSemesterId sems"
  shows "increasingIds (sems @ [new])"
proof (rule increasingIds_snoc [OF assms(1)])
  fix s assume s: "s \<in> set sems"
  then have ne: "sems \<noteq> []" by auto
  from s have "sem_id s \<in> set (map sem_id sems)" by simp
  with assms(1) ne have "sem_id s \<le> last (map sem_id sems)"
    unfolding increasingIds_def by (intro increasing_below_last) simp_all
  with ne show "sem_id s < sem_id new"
    by (simp add: assms(2) nextSemesterId_def last_map)
qed

lemma increasingIds_filter: "increasingIds sems \<Longrightarrow> increasingIds (filter P sems)"
  by (induction sems) (auto simp: increasingIds_def)

lemma update_year_ids:
  "(sem_id \<circ> (\<lambda>s. if sem_id s = k then s\<lparr> sem_year := v \<rparr> else s)) = sem_id"
  by (auto simp: fun_eq_iff)

lemma update_term_ids:
  "(sem_id \<circ> (\<lambda>s. if sem_id s = k then s\<lparr> sem_term := v \<rparr> else s)) = sem_id"
  by (auto simp: fun_eq_iff)

lemma handleAddKisu_semesters:
  assumes "handleAddKisu st = Some st'"
  shows "\<exists>new. semesters st' = semesters st @ [new] \<and> sem_id new = nextSemesterId (semesters st)"
proof -
  let ?cur = "case find (\<lambda>s. sem_id s = selectedSemester st) (semesters st) of
                Some c \<Rightarrow> Some c
              | None \<Rightarrow> (case semesters st of [] \<Rightarrow> None | s # _ \<Rightarrow> Some s)"
  from assms obtain c where c: "?cur = Some c"
    by (cases ?cur) (simp_all add: handleAddKisu_def Let_def)
  with assms show ?thesis
    unfolding handleAddKisu_def Let_def c by auto
qed

lemma step_increasing:
  assumes "increasingIds (semesters st)" and "step a st = Some st'"
  shows "increasingIds (semesters st')"
proof (cases a)
  case (SelectSemester k)
  with assms show ?thesis by auto
next
  case (SubjectClick x)
  with assms show ?thesis by (auto simp: handleSubjectClick_semesters)
next
  case (RemoveAssigned x)
  with assms show ?thesis by (auto simp: handleRemoveAssigned_def Let_def)
next
  case (DateChange k f v)
  with assms show ?thesis by (auto simp: handleDateChange_def Let_def)
next
  case (UpdateYear k v)
  with assms show ?thesis
    by (auto simp: handleUpdateSemesterYear_def increasingIds_def update_year_ids)
next
  case (UpdateTerm k v)
  with assms show ?thesis
    by (auto simp: handleUpdateSemesterTerm_def increasingIds_def update_term_ids)
next
  case (ConfirmAddSemester y t)
  with assms show ?thesis
    by (auto simp: handleConfirmAddSemester_def Let_def intro!: increasingIds_next)
next
  case AddKisu
  with assms have "handleAddKisu st = Some st'" by simp
  then obtain new where "semesters st' = semesters st @ [new]"
    and "sem_id new = nextSemesterId (semesters st)"
    using handleAddKisu_semesters by blast
  with assms(1) show ?thesis by (simp add: increasingIds_next)
next
  case (DeleteSemester k)
  show ?thesis
  proof (cases "length (semesters st) \<le> 1")
    case True
    with DeleteSemester assms show ?thesis by (auto simp: handleDeleteSemester_rejected)
  next
    case False
    with DeleteSemester assms show ?thesis
      by (auto simp: handleDeleteSemester_semesters increasingIds_filter)
  qed
next
  case (DeleteGroup key)
  with assms handleDeleteGroup_semesters [of st key] show ?thesis
    by (auto simp: increasingIds_filter)
next
  case (DeleteSubject x err)
  with assms show ?thesis by (auto simp: handleDeleteSubject_def split: option.splits)
qed

lemma run_distinct:
  "increasingIds (semesters st) \<Longrightarrow> \<forall>st' \<in> set (run ops st). distinctSemesterIds st'"
proof (induction ops arbitrary: st)
  case Nil
  then show ?case by (simp add: increasingIds_distinct)
next
  case (Cons a ops)
  show ?case
  proof (cases "step a st")
    case None
    with Cons.prems show ?thesis by (simp add: increasingIds_distinct)
  next
    case (Some st1)
    from Cons.prems Some have "increasingIds (semesters st1)" by (rule step_increasing)
    then have "\<forall>st' \<in> set (run ops st1). distinctSemesterIds st'" by (rule Cons.IH)
    with Some Cons.prems show ?thesis by (simp add: increasingIds_distinct)
  qed
qed

text \<open>Loading: fresh indices, or the stored ids followed by ids above them all.\<close>

lemma reindexed_ids:
  "map sem_id (map (\<lambda>(i, cs). cs\<lparr> sem_id := int i \<rparr>) (enumerate n csItems)) =
   map int [n ..< n + length csItems]"
proof (induction csItems arbitrary: n)
  case Nil
  then show ?case by simp
next
  case (Cons cs rest)
  have "[n ..< n + length (cs # rest)] = n # [Suc n ..< Suc n + length rest]"
    by (subst upt_rec) simp
  with Cons.IH [of "Suc n"] show ?case by simp
qed

lemma reindexed_increasing:
  "increasingIds (map (\<lambda>(i, cs). cs\<lparr> sem_id := int i \<rparr>) (enumerate 0 csItems))"
  unfolding increasingIds_def reindexed_ids
  by (simp add: sorted_wrt_map)

lemma appendMissing_increasing:
  assumes "increasingIds finalSemesters"
    and "\<And>s. s \<in> set finalSemesters \<Longrightarrow> sem_id s < nextId"
  shows "increasingIds (appendMissing finalSemesters nextId csItems)"
  using assms
proof (induction csItems arbitrary: finalSemesters nextId)
  case Nil
  then show ?case by simp
next
  case (Cons cs rest)
  show ?case
  proof (cases "list_ex (\<lambda>s. sameCohort s cs) finalSemesters")
    case True
    with Cons show ?thesis by simp
  next
    case False
    have "increasingIds (finalSemesters @ [cs\<lparr> sem_id := nextId \<rparr>])"
      by (rule increasingIds_snoc [OF Cons.prems(1)]) (simp add: Cons.prems(2))
    moreover have "sem_id s < nextId + 1"
      if "s \<in> set (finalSemesters @ [cs\<lparr> sem_id := nextId \<rparr>])" for s
      using that Cons.prems(2) [of s] by auto
    ultimately have "increasingIds
        (appendMissing (finalSemesters @ [cs\<lparr> sem_id := nextId \<rparr>]) (nextId + 1) rest)"
      by (rule Cons.IH)
    with False show ?thesis by simp
  qed
qed

lemma foldl_max_ge: "(a::int) \<le> foldl max a xs \<and> (\<forall>x \<in> set xs. x \<le> foldl max a xs)"
proof (induction xs arbitrary: a)
  case Nil
  then show ?case by simp
next
  case (Cons x xs)
  from Cons.IH [of "max a x"] show ?case by auto
qed

lemma maxSemesterId_ge: "s \<in> set sems \<Longrightarrow> sem_id s \<le> maxSemesterId sems"
proof (cases sems)
  case Nil
  assume "s \<in> set sems"
  with Nil show ?thesis by simp
next
  case (Cons a rest)
  assume "s \<in> set sems"
  with Cons foldl_max_ge [of "sem_id a" "map sem_id rest"] show ?thesis
    by (auto simp: maxSemesterId_def)
qed

lemma loadSemesters_increasing:
  assumes "increasingIds (planSemesters planData)"
  shows "increasingIds (loadSemesters classStart planData)"
proof -
  have "increasingIds (appendMissing (planSemesters planData)
      (maxSemesterId (planSemesters planData) + 1) csItems)" for csItems
  proof (rule appendMissing_increasing [OF assms])
    fix s assume "s \<in> set (planSemesters planData)"
    then have "sem_id s \<le> maxSemesterId (planSemesters planData)"
      by (rule maxSemesterId_ge)
    then show "sem_id s < maxSemesterId (planSemesters planData) + 1" by simp
  qed
  then show ?thesis
    using assms reindexed_increasing by (simp add: loadSemesters_def Let_def)
qed

end
